theory Spec2Isabelle
  imports Complex_Main "HOL-Library.Sublist"
begin

section \<open>JavaScript values used by both files\<close>

text \<open>
  A JavaScript string is a \<open>string\<close>, the bytes of its text in UTF-8; \<open>undefined\<close>
  is \<open>None\<close> of an option type.
  An object with string keys is the list of its own enumerable properties in the order
  \<open>Object.keys\<close> reports them. A record decoded by the CSV decoder and the
  \<open>properties\<close> member of a GeoJSON feature are such objects; the latter may also be
  \<open>null\<close> or missing.
\<close>

type_synonym 'v jsobject = "(string \<times> 'v) list"

datatype 'v props = Null | Obj "'v jsobject"

text \<open>\<open>_.keys\<close> of lodash: the own keys of an object, the empty array for \<open>null\<close>.\<close>

fun keys :: "'v props \<Rightarrow> string list" where
  "keys Null = []"
| "keys (Obj kvs) = map fst kvs"

text \<open>
  \<open>_.endsWith(string, target)\<close> of lodash with the default position: the slice of
  \<open>string\<close> that starts \<open>target.length\<close> before the end is compared with \<open>target\<close>.
\<close>

definition endsWith :: "string \<Rightarrow> string \<Rightarrow> bool" where
  "endsWith s target =
     (length target \<le> length s \<and> drop (length s - length target) s = target)"

text \<open>A number inside a template literal: its decimal digits.\<close>

definition digit_char :: "nat \<Rightarrow> char" where
  "digit_char d = ''0123456789'' ! d"

fun string_of_nat :: "nat \<Rightarrow> string" where
  "string_of_nat n =
     (if n < 10 then [digit_char n] else string_of_nat (n div 10) @ [digit_char (n mod 10)])"

declare string_of_nat.simps [simp del]

text \<open>An \<open>undefined\<close> value inside a template literal prints as the word itself.\<close>

fun show_string :: "string option \<Rightarrow> string" where
  "show_string None = ''undefined''"
| "show_string (Some s) = s"

fun show_number :: "nat option \<Rightarrow> string" where
  "show_number None = ''undefined''"
| "show_number (Some n) = string_of_nat n"

section \<open>The regular expression of app.js\<close>

text \<open>
  The fragment of JavaScript regular expressions that \<open>arcgisRegexp\<close> is written in:
  literal text, alternation, sequence, \<open>\d+\<close>, an optional part and \<open>$\<close> (without the
  multiline flag: the end of the input). \<open>rx_match r s\<close> lists what is left of \<open>s\<close>
  after each way \<open>r\<close> can match a prefix of it; \<open>rx_test\<close> is \<open>RegExp.prototype.test\<close>
  for a pattern without \<open>^\<close>: a match may start at any position.
\<close>

datatype rx = Lit string | Alt rx rx | Seq rx rx | Digits1 | Opt rx | Eos

definition is_digit :: "char \<Rightarrow> bool" where
  "is_digit c = (c \<in> set ''0123456789'')"

fun digit_rests :: "string \<Rightarrow> string list" where
  "digit_rests [] = []"
| "digit_rests (c # cs) = (if is_digit c then cs # digit_rests cs else [])"

fun rx_match :: "rx \<Rightarrow> string \<Rightarrow> string list" where
  "rx_match (Lit l) s = (if take (length l) s = l then [drop (length l) s] else [])"
| "rx_match (Alt a b) s = rx_match a s @ rx_match b s"
| "rx_match (Seq a b) s = concat (map (rx_match b) (rx_match a s))"
| "rx_match Digits1 s = digit_rests s"
| "rx_match (Opt a) s = rx_match a s @ [s]"
| "rx_match Eos s = (if s = [] then [[]] else [])"

definition rx_test :: "rx \<Rightarrow> string \<Rightarrow> bool" where
  "rx_test r s = list_ex (\<lambda>t. rx_match r t \<noteq> []) (suffixes s)"

text \<open>\<open>/(Map|Feature)Server\/\d+\/?$/\<close>\<close>

definition arcgisRegexp :: rx where
  "arcgisRegexp =
     Seq (Alt (Lit ''Map'') (Lit ''Feature''))
       (Seq (Lit ''Server/'') (Seq Digits1 (Seq (Opt (Lit ''/'')) Eos)))"

section \<open>app.js: the request and what a middleware does with it\<close>

text \<open>
  \<open>req.query\<close> as the handlers of app.js use it: the parameters \<open>source\<close>,
  \<open>protocol\<close>, \<open>type\<close> and \<open>compression\<close> are strings that the caller may send and
  that \<open>determineType\<close> and \<open>sampleZip\<close> write; \<open>fields\<close> and \<open>results\<close> are the arrays
  the samplers store there. A missing parameter is \<open>None\<close>.
\<close>

record 'v query =
  source :: "string option"
  protocol :: "string option"
  qtype :: "string option"
  compression :: "string option"
  qfields :: "string list option"
  qresults :: "'v props list option"

text \<open>The body \<open>output\<close> sends, and the plain-text replies of the other handlers.\<close>

record 'v sample_body =
  body_type :: "string option"
  body_compression :: "string option"
  body_data :: "string option"
  source_data_fields :: "string list option"
  source_data_results :: "'v props list option"
  conform_type :: "string option"

datatype 'v response = PlainText nat string | Json nat "'v sample_body"

text \<open>
  A middleware either calls \<open>next()\<close>, calls \<open>next('route')\<close>, sends a response and
  calls nothing, raises an exception (or emits an \<open>error\<close> event) that nothing in the
  file handles, or does none of these, so that the request is never answered.
\<close>

datatype ('q, 'r) step = Next 'q | NextRoute 'q | Respond 'r | Throws string | Stalls

definition preconditionsCheck :: "'v query \<Rightarrow> ('v query, 'v response) step" where
  "preconditionsCheck q =
     (if source q = None \<or> source q = Some []
      then Respond (PlainText 400 (CHR 0x27 # ''source'' @ CHR 0x27 # '' parameter is required''))
      else Next q)"

text \<open>
  \<open>determineType\<close>. With \<open>source\<close> missing neither the pattern nor a suffix matches
  (the pattern is tested on the word \<open>undefined\<close>, lodash compares with the empty string).
\<close>

definition determineType :: "'v query \<Rightarrow> ('v query, 'v response) step" where
  "determineType q =
     (let src = (case source q of None \<Rightarrow> ''undefined'' | Some s \<Rightarrow> s);
          str = (case source q of None \<Rightarrow> '''' | Some s \<Rightarrow> s);
          q1 = (if rx_test arcgisRegexp src
                  then q\<lparr>protocol := Some ''ESRI'', qtype := Some ''geojson''\<rparr>
                else if endsWith str ''.geojson''
                  then q\<lparr>protocol := Some ''http'', qtype := Some ''geojson''\<rparr>
                else if endsWith str ''.csv''
                  then q\<lparr>protocol := Some ''http'', qtype := Some ''csv''\<rparr>
                else if endsWith str ''.zip''
                  then q\<lparr>protocol := Some ''http'', compression := Some ''zip''\<rparr>
                else q\<lparr>protocol := Some ''unknown''\<rparr>)
      in if protocol q1 = Some ''unknown''
         then Respond (PlainText 400 ''Unsupported type'')
         else Next q1)"

text \<open>\<open>typecheck(protocol, type, compression)\<close>; a parameter left out is \<open>undefined\<close>.\<close>

definition typecheck ::
  "string option \<Rightarrow> string option \<Rightarrow> string option \<Rightarrow> 'v query \<Rightarrow> ('v query, 'v response) step"
where
  "typecheck p t c q =
     (if protocol q = p \<and> qtype q = t \<and> compression q = c then Next q else NextRoute q)"

section \<open>app.js: what the handlers read from outside\<close>

text \<open>
  The libraries the handlers call are parameters of the model. \<open>request.get\<close> with
  \<open>json: true\<close> hands the callback either an error and no response, or a response with a
  status code and a body: text, a JSON object without the two arrays, or a feature set
  (the \<open>name\<close> of each element of \<open>fields\<close>, the \<open>attributes\<close> of each of \<open>features\<close>).
\<close>

datatype 'v arcgis_body = BodyText string | BodyObject | FeatureSet "string list" "'v props list"

datatype 'v arcgis_reply = ArcgisError string | ArcgisResponse nat "'v arcgis_body"

text \<open>\<open>request(url)\<close>: an \<open>error\<close> event with its code, or a response with status and body.\<close>

datatype http_reply = RequestError string | Response nat string

text \<open>
  What the CSV decoder makes of a byte stream: the records it emits, then the end of the
  stream or an \<open>error\<close> event.
\<close>

record 'v csv_stream =
  records :: "'v jsobject list"
  parse_error :: "string option"

text \<open>
  What oboe makes of a document: the elements of \<open>features\<close> it completes, then the end
  of the document or a failure, reported with \<open>statusCode\<close>, \<open>body\<close> and \<open>thrown\<close>.
\<close>

datatype 'v feature = Feature (properties: "'v props")

record oboe_error =
  statusCode :: "nat option"
  body :: "string option"
  thrown :: "string option"

record 'v oboe_run =
  features :: "'v feature list"
  failure :: "oboe_error option"

text \<open>
  What reaches the listeners that \<open>sampleZip\<close> registers, in the order in which it
  reaches them: the \<open>entry\<close> events of the zip parser, each with a number for the entry
  and its path; for the entry with a given number, the records that the CSV decoder
  hands to the \<open>through2\<close> function and the end or the \<open>error\<close> event of that
  decoder, or the features that oboe completes and its end or failure; and the
  \<open>finish\<close> or \<open>error\<close> event of the parser. The entries are decoded while the
  parser goes on, so the events of different entries may come in any order.
\<close>

datatype 'v zip_event =
    Entry nat string
  | Csv_record nat "'v jsobject"
  | Csv_finish nat
  | Csv_error nat string
  | Geo_feature nat "'v feature"
  | Geo_done nat
  | Geo_fail nat
  | Zip_finish
  | Zip_error string

record 'v world =
  arcgis_get :: "string \<Rightarrow> 'v arcgis_reply"
  request :: "string \<Rightarrow> http_reply"
  csvParse :: "string \<Rightarrow> 'v csv_stream"
  oboe_url :: "string \<Rightarrow> 'v oboe_run"
  unzip_Parse :: "string \<Rightarrow> 'v zip_event list"

section \<open>app.js: the samplers\<close>

fun show_body :: "'v arcgis_body \<Rightarrow> string" where
  "show_body (BodyText t) = t"
| "show_body BodyObject = ''[object Object]''"
| "show_body (FeatureSet ns as) = ''[object Object]''"

text \<open>
  \<open>sampleArcgis\<close>. The callback reads \<open>response.statusCode\<close> first: with no response
  that is a TypeError, and so is \<open>.map\<close> on a body without the arrays.
\<close>

definition sampleArcgis :: "'v world \<Rightarrow> 'v query \<Rightarrow> ('v query, 'v response) step" where
  "sampleArcgis w q =
     (case arcgis_get w (show_string (source q) @ ''/query'') of
        ArcgisError code \<Rightarrow> Throws ''TypeError''
      | ArcgisResponse status b \<Rightarrow>
          if status \<noteq> 200
          then Respond (PlainText 400
                 (''Error connecting to Arcgis server '' @ show_string (source q)
                    @ '': '' @ show_body b @ '' ('' @ string_of_nat status @ '')''))
          else (case b of
                  FeatureSet names attrs \<Rightarrow> Next (q\<lparr>qfields := Some names, qresults := Some attrs\<rparr>)
                | BodyObject \<Rightarrow> Throws ''TypeError''
                | BodyText t \<Rightarrow> Throws ''TypeError''))"

text \<open>
  \<open>req.query.results.push(x)\<close> and \<open>req.query.results.length\<close>. Every sampler stores
  the empty array in \<open>results\<close> before its first record arrives, so neither is evaluated
  on \<open>undefined\<close>; the model leaves \<open>undefined\<close> as it is and counts it as empty.
\<close>

definition push_result :: "'v props \<Rightarrow> 'v query \<Rightarrow> 'v query" where
  "push_result x q = q\<lparr>qresults := map_option (\<lambda>rs. rs @ [x]) (qresults q)\<rparr>"

definition results_length :: "'v query \<Rightarrow> nat" where
  "results_length q = (case qresults q of None \<Rightarrow> 0 | Some rs \<Rightarrow> length rs)"

text \<open>
  The two \<open>node\<close> callbacks of \<open>sampleGeojson\<close>, run on the features in order: every
  feature is stored by the \<open>features[*]\<close> callback, and the one with index 9 then aborts
  the parser. The result says whether the parser was aborted.
\<close>

fun oboe_nodes :: "nat \<Rightarrow> 'v feature list \<Rightarrow> 'v query \<Rightarrow> bool \<times> 'v query" where
  "oboe_nodes i [] q = (False, q)"
| "oboe_nodes i (f # fs) q =
     (let q1 = push_result (properties f) (q\<lparr>qfields := Some (keys (properties f))\<rparr>)
      in if i = 9 then (True, q1) else oboe_nodes (Suc i) fs q1)"

definition retrieving :: "'v query \<Rightarrow> string" where
  "retrieving q = ''Error retrieving file '' @ show_string (source q)"

definition sampleGeojson :: "'v world \<Rightarrow> 'v query \<Rightarrow> ('v query, 'v response) step" where
  "sampleGeojson w q =
     (let run = oboe_url w (show_string (source q));
          (aborted, q1) = oboe_nodes 0 (features run) (q\<lparr>qresults := Some []\<rparr>)
      in if aborted then Next q1
         else (case failure run of
                 Some err \<Rightarrow>
                   Respond (PlainText 400
                     (retrieving q @ '': '' @ show_string (body err)
                        @ '' ('' @ show_number (statusCode err) @ '')''))
               | None \<Rightarrow> Next q1))"

text \<open>
  The \<open>through2\<close> function of \<open>sampleCsv\<close> and \<open>sampleZip\<close>, run on the records in
  order: a record is stored while fewer than ten are; the next one destroys the stream
  (\<open>close\<close>). With the records used up the stream ends by itself (\<open>finish\<close>).
\<close>

datatype ending = Finish | Close

fun csv_records :: "'v jsobject list \<Rightarrow> 'v query \<Rightarrow> ending \<times> 'v query" where
  "csv_records [] q = (Finish, q)"
| "csv_records (r # rs) q =
     (if results_length q < 10
      then csv_records rs (push_result (Obj r) (q\<lparr>qfields := Some (keys (Obj r))\<rparr>))
      else (Close, q))"

text \<open>
  \<open>sampleCsv\<close>. An \<open>error\<close> event of the CSV decoder has no listener: it is raised as
  an exception.
\<close>

definition sampleCsv :: "'v world \<Rightarrow> 'v query \<Rightarrow> ('v query, 'v response) step" where
  "sampleCsv w q =
     (case request w (show_string (source q)) of
        RequestError code \<Rightarrow> Respond (PlainText 400 (retrieving q @ '': '' @ code))
      | Response status msg \<Rightarrow>
          if status \<noteq> 200
          then Respond (PlainText 400
                 (retrieving q @ '': '' @ msg @ '' ('' @ string_of_nat status @ '')''))
          else (let stream = csvParse w msg;
                    (e, q1) = csv_records (records stream) (q\<lparr>qresults := Some []\<rparr>)
                in case e of
                     Close \<Rightarrow> Next q1
                   | Finish \<Rightarrow> (case parse_error stream of
                                  None \<Rightarrow> Next q1
                                | Some err \<Rightarrow> Throws err)))"

text \<open>
  \<open>sampleZip\<close>. All its listeners work on the one \<open>req.query\<close>. The \<open>entry\<close>
  listener resets \<open>type\<close> and \<open>results\<close> for an entry whose path ends in \<open>.csv\<close> or
  \<open>.geojson\<close> and starts a decoder on it; it drains any other entry. The listeners of a
  decoder are those of \<open>sampleCsv\<close> and \<open>sampleGeojson\<close>: the \<open>through2\<close> function
  counts the shared \<open>results\<close>, oboe counts the features of its own entry. An \<open>error\<close>
  event of a CSV decoder or of the parser has no listener and is raised; a failure of
  oboe has none either and is dropped. What is done with each entry is logged, and so is
  every call of \<open>next()\<close> with the query at that moment, the answer of the \<open>finish\<close>
  listener, and a raised error.
\<close>

datatype action = Decode_csv string | Decode_geojson string | Autodrain string

datatype decoder = Idle | Csv_open | Geo_open nat | Stopped

record 'v zip_run =
  zquery :: "'v query"
  routed :: "action list"
  decoders :: "nat \<Rightarrow> decoder"
  outcomes :: "('v query, 'v response) step list"

definition on_event :: "'v zip_event \<Rightarrow> 'v zip_run \<Rightarrow> 'v zip_run" where
  "on_event ev z =
     (case ev of
        Entry i p \<Rightarrow>
          if endsWith p ''.csv'' then
            z\<lparr>zquery := (zquery z)\<lparr>qtype := Some ''csv'', qresults := Some []\<rparr>,
              routed := routed z @ [Decode_csv p],
              decoders := (decoders z)(i := Csv_open)\<rparr>
          else if endsWith p ''.geojson'' then
            z\<lparr>zquery := (zquery z)\<lparr>qtype := Some ''geojson'', qresults := Some []\<rparr>,
              routed := routed z @ [Decode_geojson p],
              decoders := (decoders z)(i := Geo_open 0)\<rparr>
          else z\<lparr>routed := routed z @ [Autodrain p]\<rparr>
      | Csv_record i r \<Rightarrow>
          if decoders z i = Csv_open then
            (if results_length (zquery z) < 10
             then z\<lparr>zquery := push_result (Obj r) ((zquery z)\<lparr>qfields := Some (keys (Obj r))\<rparr>)\<rparr>
             else z\<lparr>decoders := (decoders z)(i := Stopped),
                    outcomes := outcomes z @ [Next (zquery z)]\<rparr>)
          else z
      | Csv_finish i \<Rightarrow>
          if decoders z i = Csv_open
          then z\<lparr>decoders := (decoders z)(i := Stopped),
                 outcomes := outcomes z @ [Next (zquery z)]\<rparr>
          else z
      | Csv_error i err \<Rightarrow>
          if decoders z i = Csv_open
          then z\<lparr>decoders := (decoders z)(i := Stopped), outcomes := outcomes z @ [Throws err]\<rparr>
          else z
      | Geo_feature i f \<Rightarrow>
          (case decoders z i of
             Geo_open k \<Rightarrow>
               (let q1 = push_result (properties f)
                           ((zquery z)\<lparr>qfields := Some (keys (properties f))\<rparr>)
                in if k = 9
                   then z\<lparr>zquery := q1, decoders := (decoders z)(i := Stopped),
                          outcomes := outcomes z @ [Next q1]\<rparr>
                   else z\<lparr>zquery := q1, decoders := (decoders z)(i := Geo_open (Suc k))\<rparr>)
           | other \<Rightarrow> z)
      | Geo_done i \<Rightarrow>
          (case decoders z i of
             Geo_open k \<Rightarrow> z\<lparr>decoders := (decoders z)(i := Stopped),
                              outcomes := outcomes z @ [Next (zquery z)]\<rparr>
           | other \<Rightarrow> z)
      | Geo_fail i \<Rightarrow>
          (case decoders z i of
             Geo_open k \<Rightarrow> z\<lparr>decoders := (decoders z)(i := Stopped)\<rparr>
           | other \<Rightarrow> z)
      | Zip_finish \<Rightarrow>
          if qtype (zquery z) = None \<or> qtype (zquery z) = Some []
          then z\<lparr>outcomes := outcomes z
                   @ [Respond (PlainText 400 ''Could not determine type from zip file'')]\<rparr>
          else z
      | Zip_error err \<Rightarrow> z\<lparr>outcomes := outcomes z @ [Throws err]\<rparr>)"

text \<open>A raised error ends the process: nothing after it is listened to.\<close>

fun is_Throws :: "('q, 'r) step \<Rightarrow> bool" where
  "is_Throws (Throws err) = True"
| "is_Throws other = False"

fun on_events :: "'v zip_event list \<Rightarrow> 'v zip_run \<Rightarrow> 'v zip_run" where
  "on_events [] z = z"
| "on_events (ev # rest) z =
     (let z1 = on_event ev z
      in if list_ex is_Throws (outcomes z1) then z1 else on_events rest z1)"

definition zip_start :: "'v query \<Rightarrow> 'v zip_run" where
  "zip_start q = \<lparr>zquery = q, routed = [], decoders = (\<lambda>i. Idle), outcomes = []\<rparr>"

text \<open>
  The first thing logged decides the request: the first call of \<open>next()\<close> carries it on
  to \<open>output\<close>. An \<open>error\<close> event of the request itself has no listener. With nothing
  logged at all the request is never answered.
\<close>

definition sampleZip :: "'v world \<Rightarrow> 'v query \<Rightarrow> ('v query, 'v response) step" where
  "sampleZip w q =
     (case request w (show_string (source q)) of
        RequestError code \<Rightarrow> Throws code
      | Response status b \<Rightarrow>
          (case outcomes (on_events (unzip_Parse w b) (zip_start q)) of
             first # later \<Rightarrow> first
           | [] \<Rightarrow> Stalls))"

text \<open>\<open>output\<close> of app.js (the constant member \<open>coverage: {}\<close> is left out of the body).\<close>

definition output_response :: "'v query \<Rightarrow> ('v query, 'v response) step" where
  "output_response q =
     Respond (Json 200
       \<lparr>body_type = protocol q, body_compression = compression q, body_data = source q,
        source_data_fields = qfields q, source_data_results = qresults q,
        conform_type = qtype q\<rparr>)"

section \<open>app.js: the route\<close>

text \<open>
  The handlers of a route run in order, each on the request the one before passed on with
  \<open>next()\<close>; anything else ends the route. A router with one route turns
  \<open>next('route')\<close> into leaving the router, so that the handler after it runs.
\<close>

fun run_chain :: "('q \<Rightarrow> ('q, 'r) step) list \<Rightarrow> 'q \<Rightarrow> ('q, 'r) step" where
  "run_chain [] q = Next q"
| "run_chain (h # hs) q = (case h q of Next q1 \<Rightarrow> run_chain hs q1 | other \<Rightarrow> other)"

definition router :: "('q \<Rightarrow> ('q, 'r) step) list \<Rightarrow> 'q \<Rightarrow> ('q, 'r) step" where
  "router hs q = (case run_chain hs q of NextRoute q1 \<Rightarrow> Next q1 | other \<Rightarrow> other)"

definition arcgisRouter :: "'v world \<Rightarrow> 'v query \<Rightarrow> ('v query, 'v response) step" where
  "arcgisRouter w = router [typecheck (Some ''ESRI'') (Some ''geojson'') None, sampleArcgis w]"

definition geojsonRouter :: "'v world \<Rightarrow> 'v query \<Rightarrow> ('v query, 'v response) step" where
  "geojsonRouter w = router [typecheck (Some ''http'') (Some ''geojson'') None, sampleGeojson w]"

definition csvRouter :: "'v world \<Rightarrow> 'v query \<Rightarrow> ('v query, 'v response) step" where
  "csvRouter w = router [typecheck (Some ''http'') (Some ''csv'') None, sampleCsv w]"

definition zipRouter :: "'v world \<Rightarrow> 'v query \<Rightarrow> ('v query, 'v response) step" where
  "zipRouter w = router [typecheck (Some ''http'') None (Some ''zip''), sampleZip w]"

definition fields_endpoint :: "'v world \<Rightarrow> 'v query \<Rightarrow> ('v query, 'v response) step" where
  "fields_endpoint w =
     run_chain [preconditionsCheck, determineType,
                arcgisRouter w, geojsonRouter w, csvRouter w, zipRouter w, output_response]"

section \<open>The classification rules as the specification words them\<close>

text \<open>
  Rule 1 of the specification: the locator matches \<open>(Map|Feature)Server/<digits>\<close>,
  optionally followed by a slash, at the end of the string. The suffix rules are
  \<^const>\<open>suffix\<close> of the library.
\<close>

definition arcgis_locator :: "string \<Rightarrow> bool" where
  "arcgis_locator s =
     (\<exists>pre srv ds sl. s = pre @ srv @ ''Server/'' @ ds @ sl
        \<and> (srv = ''Map'' \<or> srv = ''Feature'')
        \<and> ds \<noteq> [] \<and> list_all is_digit ds \<and> (sl = [] \<or> sl = ''/''))"

section \<open>What the samplers keep true\<close>

text \<open>If \<open>results\<close> holds a record, \<open>fields\<close> holds the keys of the last one.\<close>

definition fields_inv :: "'v query \<Rightarrow> bool" where
  "fields_inv q =
     (case qresults q of
        None \<Rightarrow> True
      | Some rs \<Rightarrow> rs = [] \<or> qfields q = Some (keys (last rs)))"

text \<open>
  The same for a run of \<open>sampleZip\<close>: it holds of the shared query once a decoder has
  been started, and of the query at each call of \<open>next()\<close>; nothing but \<open>next()\<close>, a
  plain-text answer or a raised error is ever logged.
\<close>

fun outcome_ok :: "('v query, 'v response) step \<Rightarrow> bool" where
  "outcome_ok (Next q) = fields_inv q"
| "outcome_ok (Respond (PlainText n t)) = True"
| "outcome_ok (Throws err) = True"
| "outcome_ok other = False"

definition zip_inv :: "'v zip_run \<Rightarrow> bool" where
  "zip_inv z =
     ((fields_inv (zquery z) \<or> (\<forall>i. decoders z i = Idle)) \<and> list_all outcome_ok (outcomes z))"

section \<open>A small outside world\<close>

text \<open>
  Concrete inputs on which the model is run: one CSV file, one GeoJSON file whose two
  features have different properties, an archive that holds a text file and both of
  them, a GeoJSON file that breaks off after its first feature, a CSV file that is not
  there, and hosts that refuse the connection.
\<close>

definition csv_text :: string where
  "csv_text = ''LON,LAT,NAME\<newline>-122.1,37.5,Foo\<newline>''"

definition geojson_text :: string where
  \<open>geojson_text =
     ''{"features":[{"properties":{"NAME":"Foo","KIND":"a"}},{"properties":{"NAME":"Bar"}}]}''\<close>

definition csv_decoded :: "string csv_stream" where
  "csv_decoded =
     \<lparr>records = [[(''LON'', ''-122.1''), (''LAT'', ''37.5''), (''NAME'', ''Foo'')]],
      parse_error = None\<rparr>"

definition geojson_decoded :: "string oboe_run" where
  "geojson_decoded =
     \<lparr>features = [Feature (Obj [(''NAME'', ''Foo''), (''KIND'', ''a'')]),
                  Feature (Obj [(''NAME'', ''Bar'')])],
      failure = None\<rparr>"

text \<open>
  The events of the archive: the three entries are reported first, then the CSV decoder
  hands over its record, oboe completes its two features, and both come to their end.
\<close>

definition archive_events :: "string zip_event list" where
  "archive_events =
     [Entry 0 ''readme.txt'', Entry 1 ''data.csv'', Entry 2 ''extra.geojson'',
      Csv_record 1 [(''LON'', ''-122.1''), (''LAT'', ''37.5''), (''NAME'', ''Foo'')],
      Geo_feature 2 (Feature (Obj [(''NAME'', ''Foo''), (''KIND'', ''a'')])),
      Geo_feature 2 (Feature (Obj [(''NAME'', ''Bar'')])),
      Csv_finish 1, Geo_done 2, Zip_finish]"

definition demo_world :: "string world" where
  "demo_world =
     \<lparr>arcgis_get = (\<lambda>uri. ArcgisError ''ECONNREFUSED''),
      request = (\<lambda>url. if url = ''http://h/data.csv'' then Response 200 csv_text
                       else if url = ''http://h/data.zip'' then Response 200 ''PK''
                       else if url = ''http://h/missing.csv'' then Response 404 ''Not Found''
                       else RequestError ''ECONNREFUSED''),
      csvParse = (\<lambda>bytes. if bytes = csv_text then csv_decoded
                         else \<lparr>records = [], parse_error = None\<rparr>),
      oboe_url = (\<lambda>url. if url = ''http://h/data.geojson'' then geojson_decoded
                        else if url = ''http://h/broken.geojson''
                        then \<lparr>features = [Feature (Obj [(''NAME'', ''Foo'')])],
                              failure = Some \<lparr>statusCode = None, body = None,
                                              thrown = Some ''parse error''\<rparr>\<rparr>
                        else \<lparr>features = [],
                              failure = Some \<lparr>statusCode = None, body = None,
                                              thrown = Some ''ECONNREFUSED''\<rparr>\<rparr>),
      unzip_Parse = (\<lambda>bytes. archive_events)\<rparr>"

definition only_source :: "string \<Rightarrow> string query" where
  "only_source s =
     \<lparr>source = Some s, protocol = None, qtype = None, compression = None,
      qfields = None, qresults = None\<rparr>"

text \<open>
  Two requests whose source is classifiable and which carry one more parameter, as they
  leave \<open>determineType\<close>.
\<close>

definition csv_sent_as_zip :: "string query" where
  "csv_sent_as_zip =
     \<lparr>source = Some ''http://h/data.csv'', protocol = Some ''http'', qtype = Some ''csv'',
      compression = Some ''zip'', qfields = None, qresults = None\<rparr>"

definition zip_sent_as_csv :: "string query" where
  "zip_sent_as_csv =
     \<lparr>source = Some ''http://h/data.zip'', protocol = Some ''http'', qtype = Some ''csv'',
      compression = Some ''zip'', qfields = None, qresults = None\<rparr>"

section \<open>download.js: numbers\<close>

text \<open>
  A number of the language is a double: \<open>NaN\<close>, an infinity with its sign, or a finite
  value, kept as the rational it is exactly (the sign of a zero is not kept).
  \<open>nearest_double negative p q\<close> is the double nearest to the fraction \<open>p / q\<close>, with
  the sign given, the even mantissa winning a tie. With \<open>e\<close> the binary exponent of
  the fraction (\<open>2 ^ e \<le> p / q < 2 ^ (e + 1)\<close>), not below that of the smallest normal
  double, the fraction is rounded to a multiple \<open>m\<close> of \<open>2 ^ (e - 52)\<close>; a result of
  \<open>2 ^ 1024\<close> or more is an infinity.
\<close>

datatype jsnum = NaN | Infinite bool | Finite rat

definition scale2 :: "rat \<Rightarrow> int \<Rightarrow> rat" where
  "scale2 x k = (if 0 \<le> k then x * 2 ^ nat k else x / 2 ^ nat (- k))"

fun bit_length :: "nat \<Rightarrow> nat" where
  "bit_length n = (if n = 0 then 0 else Suc (bit_length (n div 2)))"

declare bit_length.simps [simp del]

definition binary_exponent :: "nat \<Rightarrow> nat \<Rightarrow> int" where
  "binary_exponent p q =
     (let d = int (bit_length p) - int (bit_length q)
      in if 2 ^ nat d * q \<le> p * 2 ^ nat (- d) then d else d - 1)"

definition round_half_even :: "nat \<Rightarrow> nat \<Rightarrow> nat" where
  "round_half_even n d =
     (if 2 * (n mod d) < d then n div d
      else if d < 2 * (n mod d) then n div d + 1
      else if even (n div d) then n div d else n div d + 1)"

definition nearest_double :: "bool \<Rightarrow> nat \<Rightarrow> nat \<Rightarrow> jsnum" where
  "nearest_double negative p q =
     (if p = 0 then Finite 0
      else
        (let e = max (binary_exponent p q) (- 1022);
             m = round_half_even (p * 2 ^ nat (52 - e)) (q * 2 ^ nat (e - 52));
             y = scale2 (of_nat m) (e - 52)
         in if 2 ^ 1024 \<le> y then Infinite negative
            else Finite (if negative then - y else y)))"

text \<open>
  \<open>parseFloat\<close> of the language, on the bytes of a string in UTF-8. Leading white space
  and line terminators are skipped (those of ASCII, the no-break space, the byte order
  mark and the other space separators of Unicode); then the longest prefix that is a
  decimal literal (an optional sign, then \<open>Infinity\<close> or digits with an optional
  fraction and an optional exponent) gives the number: the double nearest to the digits
  times the power of ten that the fraction and the exponent make. A string without such
  a prefix gives \<open>NaN\<close>.
\<close>

definition space_length :: "string \<Rightarrow> nat" where
  "space_length s =
     (if take 1 s \<in> set [[CHR 0x09], [CHR 0x0A], [CHR 0x0B], [CHR 0x0C], [CHR 0x0D], [CHR 0x20]]
        then 1
      else if take 2 s = [CHR 0xC2, CHR 0xA0] then 2
      else if take 3 s \<in> set
          ([[CHR 0xE1, CHR 0x9A, CHR 0x80], [CHR 0xE2, CHR 0x80, CHR 0xA8],
            [CHR 0xE2, CHR 0x80, CHR 0xA9], [CHR 0xE2, CHR 0x80, CHR 0xAF],
            [CHR 0xE2, CHR 0x81, CHR 0x9F], [CHR 0xE3, CHR 0x80, CHR 0x80],
            [CHR 0xEF, CHR 0xBB, CHR 0xBF]]
           @ map (\<lambda>c. [CHR 0xE2, CHR 0x80, c])
               [CHR 0x80, CHR 0x81, CHR 0x82, CHR 0x83, CHR 0x84, CHR 0x85, CHR 0x86,
                CHR 0x87, CHR 0x88, CHR 0x89, CHR 0x8A])
        then 3
      else 0)"

fun skip_space :: "string \<Rightarrow> string" where
  "skip_space [] = []"
| "skip_space (c # cs) =
     (if space_length (c # cs) = 0 then c # cs
      else skip_space (drop (space_length (c # cs) - 1) cs))"

definition digit_value :: "char \<Rightarrow> nat" where
  "digit_value c = of_char c - 48"

definition digits_value :: "string \<Rightarrow> nat" where
  "digits_value ds = foldl (\<lambda>n c. 10 * n + digit_value c) 0 ds"

text \<open>The exponent part at the head of a string, if there is one, else 0.\<close>

definition exponent :: "string \<Rightarrow> int" where
  "exponent s =
     (case s of
        [] \<Rightarrow> 0
      | c # r \<Rightarrow>
          if c = CHR ''e'' \<or> c = CHR ''E'' then
            (case r of
               [] \<Rightarrow> 0
             | d # r1 \<Rightarrow>
                 if d = CHR ''-'' then
                   (if takeWhile is_digit r1 = [] then 0
                    else - int (digits_value (takeWhile is_digit r1)))
                 else if d = CHR ''+'' then int (digits_value (takeWhile is_digit r1))
                 else int (digits_value (takeWhile is_digit r)))
          else 0)"

definition parseFloat :: "string \<Rightarrow> jsnum" where
  "parseFloat s =
     (let t = skip_space s;
          negative = (t \<noteq> [] \<and> hd t = CHR ''-'');
          u = (if t \<noteq> [] \<and> (hd t = CHR ''-'' \<or> hd t = CHR ''+'') then tl t else t);
          ip = takeWhile is_digit u;
          r1 = dropWhile is_digit u;
          fp = (if r1 \<noteq> [] \<and> hd r1 = CHR ''.'' then takeWhile is_digit (tl r1) else []);
          r2 = (if r1 \<noteq> [] \<and> hd r1 = CHR ''.'' then dropWhile is_digit (tl r1) else r1);
          k = exponent r2 - int (length fp)
      in if take 8 u = ''Infinity'' then Infinite negative
         else if ip = [] \<and> fp = [] then NaN
         else nearest_double negative (digits_value (ip @ fp) * 10 ^ nat k) (10 ^ nat (- k)))"

section \<open>download.js: the request, the response and the outside\<close>

text \<open>
  The GeoJSON point built from a CSV record, and what is written to the response: text,
  the bytes of a file, the JSON text of a point, or an error object
  \<open>{error: {code, message}}\<close>.
\<close>

record geometry =
  gtype :: string
  coordinates :: "jsnum list"

record point =
  geometry :: geometry
  point_properties :: "string jsobject"

datatype chunk = Text string | Bytes string | Stringify point | ErrorObject nat string

text \<open>
  What \<open>JSON.stringify\<close> prints for a point, as the JSON value that the text denotes:
  the members in the order of the object literal, every column as a string, and a
  number as itself if it is finite and as \<open>null\<close> if it is not.
\<close>

datatype json =
  JNull | JNumber rat | JString string | JArray "json list" | JObject "(string \<times> json) list"

fun stringify_number :: "jsnum \<Rightarrow> json" where
  "stringify_number NaN = JNull"
| "stringify_number (Infinite negative) = JNull"
| "stringify_number (Finite x) = JNumber x"

definition stringify_point :: "point \<Rightarrow> json" where
  "stringify_point p =
     JObject
       [(''geometry'',
         JObject [(''type'', JString (gtype (geometry p))),
                  (''coordinates'', JArray (map stringify_number (coordinates (geometry p))))]),
        (''properties'', JObject (map (\<lambda>kv. (fst kv, JString (snd kv))) (point_properties p)))]"

datatype handler = RespondWithCsv | RespondWithGeojson

text \<open>
  One request to the download route: \<open>req.query.format\<close>, \<open>req.baseUrl\<close>, the members
  of \<open>res.locals\<close>, the state of the response, and the temporary files that the
  request has created and that are still on disk.
\<close>

record dl =
  format :: "string option"
  baseUrl :: string
  outputHandler :: "handler option"
  locals_source :: "string option"
  datafile :: "string option"
  statusCode_sent :: nat
  contentType :: "string option"
  contentDisposition :: "string option"
  headersSent :: bool
  written :: "chunk list"
  ended :: bool
  temp_files :: "string list"

text \<open>
  Handling a request comes to rest in some state, or an exception that nothing catches
  ends it. A handler is given \<open>next\<close>, the rest of the route, and calls it or not.
\<close>

datatype dl_step = Done dl | Crashed string dl

fun and_then :: "dl_step \<Rightarrow> (dl \<Rightarrow> dl_step) \<Rightarrow> dl_step" where
  "and_then (Done st) f = f st"
| "and_then (Crashed e st) f = Crashed e st"

text \<open>
  The outside: the environment variable, \<open>request(url)\<close> (an \<open>error\<close> event, or a
  response with status, content type and body), the CSV decoder with the tab delimiter
  and with the default one, the path of the temporary file that \<open>createWriteStream\<close>
  makes, and \<open>yauzl.open\<close> on the bytes of that file (an error, or what is called
  back while the archive is read).
\<close>

datatype dl_reply = DlError string | DlResponse nat "string option" string

record yauzl_entry =
  fileName :: string
  file_data :: string

text \<open>
  What \<open>yauzl\<close> and the streams it opens call back, in the order in which they do: the
  \<open>entry\<close> listener with an entry; the callback of the oldest \<open>openReadStream\<close> that is
  still waiting; the end of the stream that the oldest running output handler reads;
  the \<open>end\<close> listener. The \<open>entry\<close> listener asks for the next entry before it asks
  for the read stream, so the next \<open>entry\<close> or the \<open>end\<close> may come before the
  callback.
\<close>

datatype yauzl_event = On_entry yauzl_entry | On_open | On_stream_end | On_end

record dl_world =
  OPENADDRESSES_METADATA_FILE :: "string option"
  dl_request :: "string \<Rightarrow> dl_reply"
  csvParse_tab :: "string \<Rightarrow> string csv_stream"
  csvParse_comma :: "string \<Rightarrow> string csv_stream"
  temp_path :: string
  yauzl_open :: "string \<Rightarrow> string + yauzl_event list"

section \<open>download.js: the handlers\<close>

text \<open>
  \<open>res.status(code).type(t).send(x)\<close>. Setting a header after the headers have gone out
  raises \<open>ERR_HTTP_HEADERS_SENT\<close>.
\<close>

definition send :: "nat \<Rightarrow> string \<Rightarrow> chunk \<Rightarrow> dl \<Rightarrow> dl_step" where
  "send code t x st =
     (if headersSent st then Crashed ''ERR_HTTP_HEADERS_SENT'' (st\<lparr>statusCode_sent := code\<rparr>)
      else Done (st\<lparr>statusCode_sent := code, contentType := Some t, headersSent := True,
                     written := written st @ [x], ended := True\<rparr>))"

definition outputHandlers :: "string \<Rightarrow> handler option" where
  "outputHandlers = [''csv'' \<mapsto> RespondWithCsv, ''geojson'' \<mapsto> RespondWithGeojson]"

definition isOutputFormatSupported :: "string \<Rightarrow> bool" where
  "isOutputFormatSupported f = (outputHandlers f \<noteq> None)"

definition handleCatastrophicError :: "string \<Rightarrow> string \<Rightarrow> dl \<Rightarrow> dl_step" where
  "handleCatastrophicError errorCode file st =
     send 500 ''application/json''
       (ErrorObject 500 (''Error retrieving file '' @ file @ '': '' @ errorCode)) st"

definition responseIsPlainText :: "string option \<Rightarrow> bool" where
  "responseIsPlainText content_type =
     (case content_type of None \<Rightarrow> False | Some t \<Rightarrow> take 10 t = ''text/plain'')"

definition handlePlainTextNonCatastrophicError ::
  "string \<Rightarrow> nat \<Rightarrow> string \<Rightarrow> dl \<Rightarrow> dl_step"
where
  "handlePlainTextNonCatastrophicError msg status file st =
     send 500 ''application/json''
       (ErrorObject 500
          (''Error retrieving file '' @ file @ '': '' @ msg
             @ '' ('' @ string_of_nat status @ '')'')) st"

text \<open>
  \<open>respondWithCsv\<close>. The call sets status and headers and starts to pipe the entry to
  the response. The bytes go out, and with them the headers, when the entry is read;
  at its end the response is ended and \<open>finish\<close> calls \<open>next\<close>. Writing to a response
  that has been ended raises.
\<close>

definition respondWithCsv :: "dl \<Rightarrow> dl_step" where
  "respondWithCsv st =
     (if headersSent st then Crashed ''ERR_HTTP_HEADERS_SENT'' (st\<lparr>statusCode_sent := 200\<rparr>)
      else Done (st\<lparr>statusCode_sent := 200, contentType := Some ''text/csv'',
                     contentDisposition := Some ''attachment; filename=data.csv''\<rparr>))"

definition respondWithCsv_piped :: "string \<Rightarrow> (dl \<Rightarrow> dl_step) \<Rightarrow> dl \<Rightarrow> dl_step" where
  "respondWithCsv_piped entry next st =
     (if ended st then Crashed ''ERR_STREAM_WRITE_AFTER_END'' st
      else next (st\<lparr>headersSent := True, written := written st @ [Bytes entry],
                     ended := True\<rparr>))"

text \<open>
  \<open>respondWithGeojson\<close>. The first \<open>through2\<close> function turns a record into a point:
  \<open>record.LON\<close> of a record without that column is \<open>undefined\<close>, which \<open>parseFloat\<close>
  reads as the word; \<open>_.omit\<close> keeps the other columns in their order.
\<close>

definition omit :: "string jsobject \<Rightarrow> string list \<Rightarrow> string jsobject" where
  "omit r ks = filter (\<lambda>kv. fst kv \<notin> set ks) r"

definition record_to_point :: "string jsobject \<Rightarrow> point" where
  "record_to_point r =
     \<lparr>geometry = \<lparr>gtype = ''Point'',
                   coordinates = [parseFloat (show_string (map_of r ''LON'')),
                                  parseFloat (show_string (map_of r ''LAT''))]\<rparr>,
      point_properties = omit r [''LON'', ''LAT'']\<rparr>"

text \<open>
  The second \<open>through2\<close> function writes a point, after a comma unless it is the first;
  \<open>count\<close> is the variable of that name.
\<close>

definition write_point :: "point \<Rightarrow> nat \<times> chunk list \<Rightarrow> nat \<times> chunk list" where
  "write_point p cw =
     (Suc (fst cw),
      (if fst cw > 0 then snd cw @ [Text '',''] else snd cw) @ [Stringify p])"

fun write_records :: "string jsobject list \<Rightarrow> nat \<times> chunk list \<Rightarrow> nat \<times> chunk list" where
  "write_records [] cw = cw"
| "write_records (r # rs) cw = write_records rs (write_point (record_to_point r) cw)"

text \<open>
  The header is written at once. When the decoder ends the stream, the footer is written,
  the response ended and \<open>next\<close> called. When it emits \<open>error\<close>, the listener starts a
  400 response after the headers have gone out, which raises.
\<close>

definition respondWithGeojson ::
  "string csv_stream \<Rightarrow> (dl \<Rightarrow> dl_step) \<Rightarrow> dl \<Rightarrow> dl_step"
where
  \<open>respondWithGeojson entry next st =
     (if headersSent st then Crashed ''ERR_HTTP_HEADERS_SENT'' (st\<lparr>statusCode_sent := 200\<rparr>)
      else
        (let st1 = st\<lparr>statusCode_sent := 200, contentType := Some ''application/json'',
                       contentDisposition := Some ''attachment; filename=data.geojson'',
                       headersSent := True\<rparr>;
             w0 = written st1 @ [Text ''{"type":"FeatureCollection","features":[''];
             w1 = snd (write_records (records entry) (0, w0))
         in case parse_error entry of
              None \<Rightarrow> next (st1\<lparr>written := w1 @ [Text '']}''], ended := True\<rparr>)
            | Some err \<Rightarrow>
                Crashed ''ERR_HTTP_HEADERS_SENT''
                  (st1\<lparr>written := w1, statusCode_sent := 400\<rparr>)))\<close>

text \<open>
  The same handler in the two steps in which it runs inside \<open>getData\<close>: the call, which
  sets status and headers and writes the header of the collection at once, and the
  stream of records, which is read afterwards.
\<close>

definition respondWithGeojson_call :: "dl \<Rightarrow> dl_step" where
  \<open>respondWithGeojson_call st =
     (if headersSent st then Crashed ''ERR_HTTP_HEADERS_SENT'' (st\<lparr>statusCode_sent := 200\<rparr>)
      else Done (st\<lparr>statusCode_sent := 200, contentType := Some ''application/json'',
                     contentDisposition := Some ''attachment; filename=data.geojson'',
                     headersSent := True,
                     written := written st @ [Text ''{"type":"FeatureCollection","features":['']\<rparr>))\<close>

definition respondWithGeojson_stream ::
  "string csv_stream \<Rightarrow> (dl \<Rightarrow> dl_step) \<Rightarrow> dl \<Rightarrow> dl_step"
where
  "respondWithGeojson_stream entry next st =
     (let w1 = snd (write_records (records entry) (0, written st))
      in case parse_error entry of
           None \<Rightarrow> next (st\<lparr>written := w1 @ [Text '']}''], ended := True\<rparr>)
         | Some err \<Rightarrow>
             Crashed ''ERR_HTTP_HEADERS_SENT'' (st\<lparr>written := w1, statusCode_sent := 400\<rparr>))"

text \<open>\<open>preconditionsCheck\<close> of download.js; \<open>_.defaultTo\<close> fills in a missing format.\<close>

definition preconditionsCheck_download ::
  "dl_world \<Rightarrow> (dl \<Rightarrow> dl_step) \<Rightarrow> dl \<Rightarrow> dl_step"
where
  "preconditionsCheck_download w next st =
     (let f = (case format st of None \<Rightarrow> ''csv'' | Some x \<Rightarrow> x);
          st1 = st\<lparr>format := Some f\<rparr>
      in if OPENADDRESSES_METADATA_FILE w = None \<or> OPENADDRESSES_METADATA_FILE w = Some []
         then send 500 ''application/json''
                (ErrorObject 500
                   ''OPENADDRESSES_METADATA_FILE not defined in process environment'') st1
         else if \<not> isOutputFormatSupported f
         then send 400 ''application/json''
                (ErrorObject 400 (''Unsupported output format: '' @ f)) st1
         else next (st1\<lparr>outputHandler := outputHandlers f\<rparr>))"

text \<open>\<open>setupTemp\<close> stores the handle of the temp module; no file is made yet.\<close>

definition setupTemp :: "(dl \<Rightarrow> dl_step) \<Rightarrow> dl \<Rightarrow> dl_step" where
  "setupTemp next st = next st"

text \<open>\<open>String.prototype.replace\<close> with a string pattern: the first occurrence only.\<close>

fun js_replace :: "string \<Rightarrow> string \<Rightarrow> string \<Rightarrow> string" where
  "js_replace p r [] = (if p = [] then r else [])"
| "js_replace p r (c # cs) =
     (if take (length p) (c # cs) = p then r @ drop (length p) (c # cs)
      else c # js_replace p r cs)"

text \<open>
  The \<open>through2\<close> function of \<open>getMetaData\<close>, run on the records of the feed in order.
  It returns how the stream ended, the records it was called with, and the request.
\<close>

fun metadata_records ::
  "string jsobject list \<Rightarrow> dl \<Rightarrow> ending \<times> string jsobject list \<times> dl"
where
  "metadata_records [] st = (Finish, [], st)"
| "metadata_records (r # rs) st =
     (if map_of r ''source'' = locals_source st
      then (Close, [r], st\<lparr>datafile := map_of r ''processed''\<rparr>)
      else (case metadata_records rs st of (e, seen, st1) \<Rightarrow> (e, r # seen, st1)))"

text \<open>
  \<open>getMetaData\<close>. The call for a failed response that is not plain text passes the
  response object where the status is expected and nothing for the response: reading
  \<open>status\<close> of it raises a TypeError. The listener for a decoder error prints
  \<open>res.locals.source.data\<close>, which is \<open>undefined\<close>.
\<close>

definition getMetaData :: "dl_world \<Rightarrow> (dl \<Rightarrow> dl_step) \<Rightarrow> dl \<Rightarrow> dl_step" where
  "getMetaData w next st =
     (let file = show_string (OPENADDRESSES_METADATA_FILE w);
          st1 = st\<lparr>locals_source := Some (js_replace ''/download/'' [] (baseUrl st))\<rparr>
      in case dl_request w file of
           DlError code \<Rightarrow> handleCatastrophicError code file st1
         | DlResponse status content_type msg \<Rightarrow>
             if status \<noteq> 200 then
               (if responseIsPlainText content_type
                then handlePlainTextNonCatastrophicError msg status file st1
                else Crashed ''TypeError'' st1)
             else
               (case metadata_records (records (csvParse_tab w msg)) st1 of
                  (Close, seen, st2) \<Rightarrow> next st2
                | (Finish, seen, st2) \<Rightarrow>
                    (case parse_error (csvParse_tab w msg) of
                       None \<Rightarrow> next st2
                     | Some err \<Rightarrow>
                         send 400 ''text/plain''
                           (Text (''Error retrieving file undefined: '' @ err)) st2)))"

text \<open>
  The listeners of \<open>getData\<close>, with the variable \<open>csvFileFound\<close>, the entries whose
  read stream has been asked for, and the contents of those that an output handler is
  reading. An entry is asked for if its name ends in \<open>.csv\<close> and \<open>csvFileFound\<close> is
  not set; the callback sets the variable and calls the output handler.
\<close>

record zip_state =
  csvFileFound :: bool
  waiting :: "yauzl_entry list"
  running :: "string list"
  zdl :: dl
  crashed :: "string option"

definition settle :: "dl_step \<Rightarrow> zip_state \<Rightarrow> zip_state" where
  "settle s z =
     (case s of
        Done st \<Rightarrow> z\<lparr>zdl := st\<rparr>
      | Crashed e st \<Rightarrow> z\<lparr>zdl := st, crashed := Some e\<rparr>)"

definition on_zip_event ::
  "dl_world \<Rightarrow> (dl \<Rightarrow> dl_step) \<Rightarrow> yauzl_event \<Rightarrow> zip_state \<Rightarrow> zip_state"
where
  "on_zip_event w next ev z =
     (case ev of
        On_entry entry \<Rightarrow>
          if endsWith (fileName entry) ''.csv'' \<and> \<not> csvFileFound z
          then z\<lparr>waiting := waiting z @ [entry]\<rparr>
          else z
      | On_open \<Rightarrow>
          (case waiting z of
             [] \<Rightarrow> z
           | entry # rest \<Rightarrow>
               (let z1 = z\<lparr>csvFileFound := True, waiting := rest,
                           running := running z @ [file_data entry]\<rparr>
                in case outputHandler (zdl z) of
                     Some RespondWithCsv \<Rightarrow> settle (respondWithCsv (zdl z)) z1
                   | Some RespondWithGeojson \<Rightarrow> settle (respondWithGeojson_call (zdl z)) z1
                   | None \<Rightarrow> z1\<lparr>crashed := Some ''TypeError''\<rparr>))
      | On_stream_end \<Rightarrow>
          (case running z of
             [] \<Rightarrow> z
           | bytes # rest \<Rightarrow>
               (case outputHandler (zdl z) of
                  Some RespondWithCsv \<Rightarrow>
                    settle (respondWithCsv_piped bytes next (zdl z)) (z\<lparr>running := rest\<rparr>)
                | Some RespondWithGeojson \<Rightarrow>
                    settle (respondWithGeojson_stream (csvParse_comma w bytes) next (zdl z))
                      (z\<lparr>running := rest\<rparr>)
                | None \<Rightarrow> z\<lparr>running := rest\<rparr>))
      | On_end \<Rightarrow>
          if \<not> csvFileFound z
          then settle
                 (and_then
                    (send 500 ''application/json''
                       (ErrorObject 500
                          (show_string (datafile (zdl z)) @ '' does not contain .csv file''))
                       (zdl z))
                    next) z
          else settle (next (zdl z)) z)"

text \<open>A raised error ends the process.\<close>

fun on_zip_events ::
  "dl_world \<Rightarrow> (dl \<Rightarrow> dl_step) \<Rightarrow> yauzl_event list \<Rightarrow> zip_state \<Rightarrow> zip_state"
where
  "on_zip_events w next [] z = z"
| "on_zip_events w next (ev # rest) z =
     (let z1 = on_zip_event w next ev z
      in if crashed z1 = None then on_zip_events w next rest z1 else z1)"

text \<open>
  \<open>getData\<close>. A \<open>datafile\<close> that is missing or empty counts as not found. The body of a
  200 response is written to a new temporary file before the archive is opened; the
  listener for a failure to open it prints \<open>res.locals.source.data\<close>.
\<close>

definition getData :: "dl_world \<Rightarrow> (dl \<Rightarrow> dl_step) \<Rightarrow> dl \<Rightarrow> dl_step" where
  "getData w next st =
     (if datafile st = None \<or> datafile st = Some []
      then send 400 ''application/json''
             (ErrorObject 400
                (''Unable to find '' @ show_string (locals_source st) @ '' in ''
                   @ show_string (OPENADDRESSES_METADATA_FILE w))) st
      else
        (case dl_request w (show_string (datafile st)) of
           DlError code \<Rightarrow> handleCatastrophicError code (show_string (datafile st)) st
         | DlResponse status content_type msg \<Rightarrow>
             if status \<noteq> 200
             then handlePlainTextNonCatastrophicError msg status (show_string (datafile st)) st
             else
               (let st1 = st\<lparr>temp_files := temp_files st @ [temp_path w]\<rparr>
                in case yauzl_open w msg of
                     Inl err \<Rightarrow>
                       send 400 ''text/plain''
                         (Text (''Error retrieving file undefined: '' @ err)) st1
                   | Inr events \<Rightarrow>
                       (let z = on_zip_events w next events
                                  \<lparr>csvFileFound = False, waiting = [], running = [],
                                   zdl = st1, crashed = None\<rparr>
                        in case crashed z of
                             None \<Rightarrow> Done (zdl z)
                           | Some e \<Rightarrow> Crashed e (zdl z)))))"

text \<open>
  \<open>cleanupTemp\<close> removes the temporary files of the request unless the headers of the
  response have been sent.
\<close>

definition cleanupTemp :: "dl \<Rightarrow> dl_step" where
  "cleanupTemp st = (if \<not> headersSent st then Done (st\<lparr>temp_files := []\<rparr>) else Done st)"

definition download_route :: "dl_world \<Rightarrow> dl \<Rightarrow> dl_step" where
  "download_route w =
     preconditionsCheck_download w (setupTemp (getMetaData w (getData w cleanupTemp)))"

text \<open>A fresh request: nothing in \<open>res.locals\<close>, nothing sent, no temporary file.\<close>

definition fresh :: "string \<Rightarrow> string option \<Rightarrow> dl" where
  "fresh url f =
     \<lparr>format = f, baseUrl = url, outputHandler = None, locals_source = None,
      datafile = None, statusCode_sent = 200, contentType = None,
      contentDisposition = None, headersSent = False, written = [], ended = False,
      temp_files = []\<rparr>"

text \<open>The points among what has been written.\<close>

fun points_written :: "chunk list \<Rightarrow> point list" where
  "points_written [] = []"
| "points_written (Stringify p # cs) = p # points_written cs"
| "points_written (c # cs) = points_written cs"

section \<open>A small outside world for download.js\<close>

text \<open>
  A feed of five records, two of them with the same key, and four archives: one with a
  CSV file between two other files, one without a CSV file, one that is not a zip file,
  and one whose CSV file is its last entry. In the first archive the read stream of the
  CSV file opens before the archive is at its end and is read to its end after that; in
  the last the \<open>end\<close> of the archive comes before the read stream opens.
\<close>

definition feed_records :: "string jsobject list" where
  "feed_records =
     [[(''source'', ''us/ca/x''), (''processed'', ''http://data/us-ca.zip'')],
      [(''source'', ''us/dup''), (''processed'', ''http://data/empty.zip'')],
      [(''source'', ''us/dup''), (''processed'', ''http://data/other.zip'')],
      [(''source'', ''us/bad''), (''processed'', ''http://data/bad.zip'')],
      [(''source'', ''us/last''), (''processed'', ''http://data/last.zip'')]]"

definition demo_dl_world :: dl_world where
  "demo_dl_world =
     \<lparr>OPENADDRESSES_METADATA_FILE = Some ''http://results/state.txt'',
      dl_request =
        (\<lambda>url. if url = ''http://results/state.txt''
                 then DlResponse 200 (Some ''text/plain'') ''feed''
               else if url = ''http://data/us-ca.zip''
                 then DlResponse 200 (Some ''application/zip'') ''PK us-ca''
               else if url = ''http://data/empty.zip''
                 then DlResponse 200 (Some ''application/zip'') ''PK empty''
               else if url = ''http://data/last.zip''
                 then DlResponse 200 (Some ''application/zip'') ''PK last''
               else if url = ''http://data/bad.zip''
                 then DlResponse 200 (Some ''application/zip'') ''oops''
               else DlError ''ECONNREFUSED''),
      csvParse_tab = (\<lambda>bytes. \<lparr>records = feed_records, parse_error = None\<rparr>),
      csvParse_comma = (\<lambda>bytes. if bytes = csv_text then csv_decoded
                               else \<lparr>records = [], parse_error = None\<rparr>),
      temp_path = ''/tmp/d-1.zip'',
      yauzl_open =
        (\<lambda>bytes. if bytes = ''PK us-ca''
                   then Inr [On_entry \<lparr>fileName = ''README.txt'', file_data = ''hello''\<rparr>,
                             On_entry \<lparr>fileName = ''us/ca/x.csv'', file_data = csv_text\<rparr>,
                             On_open,
                             On_entry \<lparr>fileName = ''us/ca/x.vrt'', file_data = ''<vrt/>''\<rparr>,
                             On_end,
                             On_stream_end]
                 else if bytes = ''PK empty''
                   then Inr [On_entry \<lparr>fileName = ''README.txt'', file_data = ''hello''\<rparr>,
                             On_end]
                 else if bytes = ''PK last''
                   then Inr [On_entry \<lparr>fileName = ''README.txt'', file_data = ''hello''\<rparr>,
                             On_entry \<lparr>fileName = ''us/ca/x.csv'', file_data = csv_text\<rparr>,
                             On_end,
                             On_open,
                             On_stream_end]
                 else Inl ''end of central directory record signature not found'')\<rparr>"

text \<open>A stream whose only record has a longitude that is not a number.\<close>

definition bad_lon :: "string csv_stream" where
  "bad_lon =
     \<lparr>records = [[(''LON'', ''west''), (''LAT'', ''37.5''), (''NAME'', ''Foo'')]],
      parse_error = None\<rparr>"

section \<open>The pattern and the suffix test\<close>

lemma in_digit_rests:
  "t \<in> set (digit_rests s) \<longleftrightarrow> (\<exists>ds. ds \<noteq> [] \<and> list_all is_digit ds \<and> s = ds @ t)"
proof (induction s)
  case Nil
  then show ?case by simp
next
  case (Cons c cs)
  show ?case
  proof (cases "is_digit c")
    case True
    have "(\<exists>ds. ds \<noteq> [] \<and> list_all is_digit ds \<and> c # cs = ds @ t)
          \<longleftrightarrow> (cs = t \<or> (\<exists>ds. ds \<noteq> [] \<and> list_all is_digit ds \<and> cs = ds @ t))"
      (is "?L \<longleftrightarrow> ?R")
    proof
      assume ?L
      then obtain ds where ds: "ds \<noteq> []" "list_all is_digit ds" "c # cs = ds @ t" by blast
      then obtain d ds' where dd: "ds = d # ds'" by (cases ds) auto
      with ds have "cs = ds' @ t" "list_all is_digit ds'" by auto
      then show ?R by (cases ds') auto
    next
      assume ?R
      then show ?L
      proof
        assume "cs = t"
        then have "[c] \<noteq> [] \<and> list_all is_digit [c] \<and> c # cs = [c] @ t" using True by simp
        then show ?L by blast
      next
        assume "\<exists>ds. ds \<noteq> [] \<and> list_all is_digit ds \<and> cs = ds @ t"
        then obtain ds where "ds \<noteq> []" "list_all is_digit ds" "cs = ds @ t" by blast
        then have "c # ds \<noteq> [] \<and> list_all is_digit (c # ds) \<and> c # cs = (c # ds) @ t"
          using True by simp
        then show ?L by blast
      qed
    qed
    with True Cons show ?thesis by auto
  next
    case False
    have "\<not> (\<exists>ds. ds \<noteq> [] \<and> list_all is_digit ds \<and> c # cs = ds @ t)"
    proof
      assume "\<exists>ds. ds \<noteq> [] \<and> list_all is_digit ds \<and> c # cs = ds @ t"
      then obtain ds where ds: "ds \<noteq> []" "list_all is_digit ds" "c # cs = ds @ t" by blast
      then obtain d ds' where "ds = d # ds'" by (cases ds) auto
      with ds False show False by auto
    qed
    with False show ?thesis by simp
  qed
qed

lemma in_match_Lit: "t \<in> set (rx_match (Lit l) s) \<longleftrightarrow> s = l @ t"
proof
  assume "t \<in> set (rx_match (Lit l) s)"
  then have "take (length l) s = l" "t = drop (length l) s"
    by (auto split: if_splits)
  then show "s = l @ t"
    by (metis append_take_drop_id)
next
  assume "s = l @ t"
  then show "t \<in> set (rx_match (Lit l) s)" by simp
qed

lemma in_match_Seq:
  "t \<in> set (rx_match (Seq a b) s) \<longleftrightarrow> (\<exists>m. m \<in> set (rx_match a s) \<and> t \<in> set (rx_match b m))"
  by auto

lemma in_match_Alt:
  "t \<in> set (rx_match (Alt a b) s) \<longleftrightarrow> t \<in> set (rx_match a s) \<or> t \<in> set (rx_match b s)"
  by auto

lemma in_match_Opt: "t \<in> set (rx_match (Opt a) s) \<longleftrightarrow> t \<in> set (rx_match a s) \<or> t = s"
  by auto

lemma in_match_Eos: "t \<in> set (rx_match Eos s) \<longleftrightarrow> s = [] \<and> t = []"
  by auto

lemma in_match_Digits1:
  "t \<in> set (rx_match Digits1 s) \<longleftrightarrow> (\<exists>ds. ds \<noteq> [] \<and> list_all is_digit ds \<and> s = ds @ t)"
  by (simp add: in_digit_rests)

lemmas in_match =
  in_match_Lit in_match_Seq in_match_Alt in_match_Opt in_match_Eos in_match_Digits1

text \<open>A match of the pattern uses up the input, and the input has the shape of rule 1.\<close>

lemma match_arcgisRegexp:
  "t \<in> set (rx_match arcgisRegexp s) \<longleftrightarrow>
     t = [] \<and> (\<exists>srv ds sl. s = srv @ ''Server/'' @ ds @ sl
        \<and> (srv = ''Map'' \<or> srv = ''Feature'')
        \<and> ds \<noteq> [] \<and> list_all is_digit ds \<and> (sl = [] \<or> sl = ''/''))"
  (is "?L \<longleftrightarrow> ?R")
proof
  assume ?L
  then obtain m1 m2 m3 m4 ds where
    m1: "s = ''Map'' @ m1 \<or> s = ''Feature'' @ m1" and
    m2: "m1 = ''Server/'' @ m2" and
    ds: "ds \<noteq> []" "list_all is_digit ds" "m2 = ds @ m3" and
    m4: "m3 = ''/'' @ m4 \<or> m4 = m3" and
    e: "m4 = []" "t = []"
    unfolding arcgisRegexp_def in_match by blast
  from m4 e have sl: "m3 = [] \<or> m3 = ''/''" by auto
  from m1 obtain srv where srv: "srv = ''Map'' \<or> srv = ''Feature''" "s = srv @ m1" by blast
  then have "s = srv @ ''Server/'' @ ds @ m3" using m2 ds by simp
  with srv ds sl e show ?R by blast
next
  assume ?R
  then obtain srv ds sl where
    t: "t = []" and s: "s = srv @ ''Server/'' @ ds @ sl" and
    srv: "srv = ''Map'' \<or> srv = ''Feature''" and
    ds: "ds \<noteq> []" "list_all is_digit ds" and sl: "sl = [] \<or> sl = ''/''"
    by blast
  have 1: "[] \<in> set (rx_match (Seq (Opt (Lit ''/'')) Eos) sl)"
    using sl by auto
  have 2: "sl \<in> set (rx_match Digits1 (ds @ sl))"
    unfolding in_match_Digits1 using ds by blast
  have 3: "ds @ sl \<in> set (rx_match (Lit ''Server/'') (''Server/'' @ ds @ sl))"
    unfolding in_match_Lit by simp
  have 4: "''Server/'' @ ds @ sl \<in> set (rx_match (Alt (Lit ''Map'') (Lit ''Feature'')) s)"
    unfolding in_match_Alt in_match_Lit using srv s by auto
  show ?L
    unfolding arcgisRegexp_def t
    using 1 2 3 4 in_match_Seq by blast
qed

lemma rx_test_arcgisRegexp: "rx_test arcgisRegexp s \<longleftrightarrow> arcgis_locator s"
proof -
  have ne: "xs \<noteq> [] \<longleftrightarrow> (\<exists>x. x \<in> set xs)" for xs :: "string list"
    by (cases xs) auto
  have "rx_test arcgisRegexp s \<longleftrightarrow> (\<exists>t. suffix t s \<and> [] \<in> set (rx_match arcgisRegexp t))"
    unfolding rx_test_def list_ex_iff ne
    using match_arcgisRegexp by (metis in_set_suffixes)
  also have "\<dots> \<longleftrightarrow> arcgis_locator s"
    unfolding match_arcgisRegexp arcgis_locator_def suffix_def by auto
  finally show ?thesis .
qed

lemma endsWith_suffix: "endsWith s t \<longleftrightarrow> suffix t s"
proof
  assume "endsWith s t"
  then have "s = take (length s - length t) s @ t"
    unfolding endsWith_def by (metis append_take_drop_id)
  then show "suffix t s"
    unfolding suffix_def by blast
next
  assume "suffix t s"
  then obtain p where "s = p @ t"
    unfolding suffix_def by blast
  then show "endsWith s t"
    unfolding endsWith_def by simp
qed

section \<open>Classification\<close>

text \<open>
  C3, as the code has it. Which rule applies depends on the source string alone, in the
  order of the specification, first match first: the ArcGIS pattern gives protocol
  \<open>ESRI\<close> and type \<open>geojson\<close>; the suffix \<open>.geojson\<close> gives \<open>http\<close> and \<open>geojson\<close>;
  \<open>.csv\<close> gives \<open>http\<close> and \<open>csv\<close>; \<open>.zip\<close> gives \<open>http\<close> and compression \<open>zip\<close>;
  anything else is answered with 400 \<open>Unsupported type\<close>. A rule writes the parameters
  it names and leaves the others as the request carried them: after the \<open>.zip\<close> rule
  \<open>type\<close> is what the caller sent, and after the other rules \<open>compression\<close> is.
\<close>

theorem determineType_rules:
  "determineType q =
     (case source q of
        None \<Rightarrow> Respond (PlainText 400 ''Unsupported type'')
      | Some s \<Rightarrow>
          if arcgis_locator s
            then Next (q\<lparr>protocol := Some ''ESRI'', qtype := Some ''geojson''\<rparr>)
          else if suffix ''.geojson'' s
            then Next (q\<lparr>protocol := Some ''http'', qtype := Some ''geojson''\<rparr>)
          else if suffix ''.csv'' s
            then Next (q\<lparr>protocol := Some ''http'', qtype := Some ''csv''\<rparr>)
          else if suffix ''.zip'' s
            then Next (q\<lparr>protocol := Some ''http'', compression := Some ''zip''\<rparr>)
          else Respond (PlainText 400 ''Unsupported type''))"
proof (cases "source q")
  case None
  have "\<not> rx_test arcgisRegexp ''undefined''"
    by (simp add: rx_test_def arcgisRegexp_def)
  moreover have "\<not> endsWith [] t" if "t \<noteq> []" for t
    using that by (simp add: endsWith_def)
  ultimately show ?thesis
    using None by (simp add: determineType_def)
next
  case (Some s)
  then show ?thesis
    by (simp add: determineType_def rx_test_arcgisRegexp endsWith_suffix)
qed

text \<open>
  C3 as stated fails: a source that ends in \<open>.zip\<close>, sent together with \<open>type=csv\<close>,
  leaves \<open>determineType\<close> with type \<open>csv\<close>, not with an undetermined type.
\<close>

theorem determineType_keeps_caller_type:
  "determineType
       (\<lparr>source = Some ''a.zip'', protocol = None, qtype = Some ''csv'', compression = None,
         qfields = None, qresults = None\<rparr> :: string query)
     = Next \<lparr>source = Some ''a.zip'', protocol = Some ''http'', qtype = Some ''csv'',
              compression = Some ''zip'', qfields = None, qresults = None\<rparr>"
  by (simp add: determineType_def rx_test_def arcgisRegexp_def endsWith_def)

section \<open>Unfolding the route\<close>

lemmas endpoint_defs =
  fields_endpoint_def preconditionsCheck_def arcgisRouter_def geojsonRouter_def
  csvRouter_def zipRouter_def router_def typecheck_def output_response_def

section \<open>The samplers\<close>

lemma router_decline:
  "\<not> (protocol q = p \<and> qtype q = t \<and> compression q = c) \<Longrightarrow>
     router [typecheck p t c, h] q = Next q"
  by (auto simp: router_def typecheck_def)

lemma router_accept:
  "protocol q = p \<Longrightarrow> qtype q = t \<Longrightarrow> compression q = c \<Longrightarrow>
     router [typecheck p t c, h] q = (case h q of NextRoute q1 \<Rightarrow> Next q1 | other \<Rightarrow> other)"
  by (simp add: router_def typecheck_def split: step.splits)

lemma fields_inv_reset: "fields_inv (q\<lparr>qresults := Some []\<rparr>)"
  by (simp add: fields_inv_def)

lemma fields_inv_push: "fields_inv (push_result x (q\<lparr>qfields := Some (keys x)\<rparr>))"
  by (simp add: fields_inv_def push_result_def split: option.splits)

lemma csv_records_inv: "fields_inv q \<Longrightarrow> fields_inv (snd (csv_records rs q))"
  by (induction rs arbitrary: q) (simp_all add: fields_inv_push del: keys.simps)

lemma oboe_nodes_inv: "fields_inv q \<Longrightarrow> fields_inv (snd (oboe_nodes i fs q))"
  by (induction fs arbitrary: q i) (simp_all add: fields_inv_push Let_def del: keys.simps)

lemma csv_records_results:
  "qresults q = Some acc \<Longrightarrow>
     qresults (snd (csv_records rs q)) = Some (acc @ map Obj (take (10 - length acc) rs))"
proof (induction rs arbitrary: q acc)
  case Nil
  then show ?case by simp
next
  case (Cons r rs)
  show ?case
  proof (cases "length acc < 10")
    case True
    let ?q = "push_result (Obj r) (q\<lparr>qfields := Some (keys (Obj r))\<rparr>)"
    have "qresults ?q = Some (acc @ [Obj r])"
      using Cons.prems by (simp add: push_result_def)
    from Cons.IH [OF this] True Cons.prems show ?thesis
      by (simp add: results_length_def take_Cons' Suc_diff_Suc)
  next
    case False
    with Cons.prems show ?thesis by (simp add: results_length_def)
  qed
qed

lemma oboe_nodes_results:
  "qresults q = Some acc \<Longrightarrow> i \<le> 9 \<Longrightarrow>
     qresults (snd (oboe_nodes i fs q)) = Some (acc @ map properties (take (10 - i) fs))"
proof (induction fs arbitrary: q acc i)
  case Nil
  then show ?case by simp
next
  case (Cons f fs)
  let ?q = "push_result (properties f) (q\<lparr>qfields := Some (keys (properties f))\<rparr>)"
  have r: "qresults ?q = Some (acc @ [properties f])"
    using Cons.prems by (simp add: push_result_def)
  show ?case
  proof (cases "i = 9")
    case True
    with r show ?thesis by (simp add: Let_def)
  next
    case False
    with Cons.prems have "Suc i \<le> 9" by simp
    from Cons.IH [OF r this] False Cons.prems show ?thesis
      by (simp add: Let_def take_Cons' Suc_diff_Suc)
  qed
qed

lemma push_result_same [simp]:
  "source (push_result x q) = source q" "protocol (push_result x q) = protocol q"
  "qtype (push_result x q) = qtype q" "compression (push_result x q) = compression q"
  "qfields (push_result x q) = qfields q"
  by (simp_all add: push_result_def)

lemma csv_records_same:
  "source (snd (csv_records rs q)) = source q \<and> protocol (snd (csv_records rs q)) = protocol q
   \<and> qtype (snd (csv_records rs q)) = qtype q
   \<and> compression (snd (csv_records rs q)) = compression q"
  by (induction rs arbitrary: q) simp_all

lemma oboe_nodes_same:
  "source (snd (oboe_nodes i fs q)) = source q \<and> protocol (snd (oboe_nodes i fs q)) = protocol q
   \<and> qtype (snd (oboe_nodes i fs q)) = qtype q
   \<and> compression (snd (oboe_nodes i fs q)) = compression q"
  by (induction fs arbitrary: q i) (simp_all add: Let_def)

lemma sampleCsv_Next:
  "sampleCsv w q = Next q2 \<Longrightarrow>
     (\<exists>b. request w (show_string (source q)) = Response 200 b
        \<and> q2 = snd (csv_records (records (csvParse w b)) (q\<lparr>qresults := Some []\<rparr>)))"
  by (auto simp: sampleCsv_def Let_def split: http_reply.splits if_splits prod.splits ending.splits option.splits)

lemma sampleGeojson_Next:
  "sampleGeojson w q = Next q2 \<Longrightarrow>
     q2 = snd (oboe_nodes 0 (features (oboe_url w (show_string (source q)))) (q\<lparr>qresults := Some []\<rparr>))"
  by (auto simp: sampleGeojson_def Let_def split: if_splits prod.splits option.splits)

lemma fields_inv_reset_type: "fields_inv (q\<lparr>qtype := t, qresults := Some []\<rparr>)"
  by (simp add: fields_inv_def)

lemma zip_inv_open:
  "zip_inv z \<Longrightarrow> decoders z i \<noteq> Idle \<Longrightarrow> fields_inv (zquery z)"
  by (auto simp: zip_inv_def)

lemma on_event_inv: "zip_inv z \<Longrightarrow> zip_inv (on_event ev z)"
proof -
  assume a: "zip_inv z"
  then have o: "list_all outcome_ok (outcomes z)"
    by (simp add: zip_inv_def)
  show ?thesis
  proof (cases ev)
    case (Entry i p)
    with o show ?thesis
      using a by (auto simp: on_event_def zip_inv_def fields_inv_reset_type)
  next
    case (Csv_record i r)
    show ?thesis
    proof (cases "decoders z i = Csv_open")
      case True
      then have "fields_inv (zquery z)"
        using zip_inv_open [OF a, of i] by simp
      with o True Csv_record show ?thesis
        using a by (auto simp: on_event_def zip_inv_def fields_inv_push simp del: keys.simps)
    next
      case False
      with Csv_record a show ?thesis by (simp add: on_event_def)
    qed
  next
    case (Csv_finish i)
    show ?thesis
    proof (cases "decoders z i = Csv_open")
      case True
      then have "fields_inv (zquery z)"
        using zip_inv_open [OF a, of i] by simp
      with o True Csv_finish show ?thesis
        by (auto simp: on_event_def zip_inv_def)
    next
      case False
      with Csv_finish a show ?thesis by (simp add: on_event_def)
    qed
  next
    case (Csv_error i err)
    show ?thesis
    proof (cases "decoders z i = Csv_open")
      case True
      then have "fields_inv (zquery z)"
        using zip_inv_open [OF a, of i] by simp
      with o True Csv_error show ?thesis
        by (auto simp: on_event_def zip_inv_def)
    next
      case False
      with Csv_error a show ?thesis by (simp add: on_event_def)
    qed
  next
    case (Geo_feature i f)
    show ?thesis
    proof (cases "decoders z i")
      case (Geo_open k)
      with o Geo_feature show ?thesis
        by (auto simp: on_event_def zip_inv_def Let_def fields_inv_push simp del: keys.simps)
    qed (use Geo_feature a in \<open>simp_all add: on_event_def\<close>)
  next
    case (Geo_done i)
    show ?thesis
    proof (cases "decoders z i")
      case (Geo_open k)
      then have "fields_inv (zquery z)"
        using zip_inv_open [OF a, of i] by simp
      with o Geo_open Geo_done show ?thesis
        by (auto simp: on_event_def zip_inv_def)
    qed (use Geo_done a in \<open>simp_all add: on_event_def\<close>)
  next
    case (Geo_fail i)
    show ?thesis
    proof (cases "decoders z i")
      case (Geo_open k)
      then have "fields_inv (zquery z)"
        using zip_inv_open [OF a, of i] by simp
      with o Geo_open Geo_fail show ?thesis
        by (auto simp: on_event_def zip_inv_def)
    qed (use Geo_fail a in \<open>simp_all add: on_event_def\<close>)
  next
    case Zip_finish
    with a show ?thesis
      by (auto simp: on_event_def zip_inv_def)
  next
    case (Zip_error err)
    with a show ?thesis
      by (auto simp: on_event_def zip_inv_def)
  qed
qed

lemma on_events_inv: "zip_inv z \<Longrightarrow> zip_inv (on_events evs z)"
  by (induction evs arbitrary: z) (simp_all add: Let_def on_event_inv)

lemma sampleZip_outcome: "sampleZip w q = Stalls \<or> outcome_ok (sampleZip w q)"
proof (cases "request w (show_string (source q))")
  case (RequestError code)
  then show ?thesis by (simp add: sampleZip_def)
next
  case (Response status b)
  have "zip_inv (on_events (unzip_Parse w b) (zip_start q))"
    by (rule on_events_inv) (simp add: zip_inv_def zip_start_def)
  then have "list_all outcome_ok (outcomes (on_events (unzip_Parse w b) (zip_start q)))"
    by (simp add: zip_inv_def)
  with Response show ?thesis
    by (cases "outcomes (on_events (unzip_Parse w b) (zip_start q))")
       (simp_all add: sampleZip_def)
qed

lemma sampleZip_Next: "sampleZip w q = Next q2 \<Longrightarrow> fields_inv q2"
  using sampleZip_outcome [of w q] by auto

lemma sampleZip_not_Json: "sampleZip w q \<noteq> Respond (Json n b)"
  using sampleZip_outcome [of w q] by auto

lemma sampleZip_not_NextRoute: "sampleZip w q \<noteq> NextRoute x"
  using sampleZip_outcome [of w q] by auto

lemma sampleCsv_not_Json: "sampleCsv w q \<noteq> Respond (Json n b)"
  by (auto simp: sampleCsv_def Let_def split: http_reply.splits if_splits prod.splits ending.splits option.splits)

lemma sampleGeojson_not_Json: "sampleGeojson w q \<noteq> Respond (Json n b)"
  by (auto simp: sampleGeojson_def Let_def split: if_splits prod.splits option.splits)

lemma sampleCsv_inv: "sampleCsv w q = Next q2 \<Longrightarrow> fields_inv q2"
  using sampleCsv_Next [of w q q2] csv_records_inv [OF fields_inv_reset] by auto

lemma sampleGeojson_inv: "sampleGeojson w q = Next q2 \<Longrightarrow> fields_inv q2"
  using sampleGeojson_Next [of w q q2] oboe_nodes_inv [OF fields_inv_reset] by auto

lemma output_fields:
  assumes "output_response q2 = Respond (Json 200 sent)" "fields_inv q2"
    and "source_data_results sent = Some rs" "rs \<noteq> []"
  shows "source_data_fields sent = Some (keys (last rs))"
  using assms by (auto simp: output_response_def fields_inv_def)

section \<open>What the route does with a classified request\<close>

lemma endpoint_classified:
  "source q = Some s \<Longrightarrow> s \<noteq> [] \<Longrightarrow> determineType q = Next q1 \<Longrightarrow>
     fields_endpoint w q =
       run_chain [arcgisRouter w, geojsonRouter w, csvRouter w, zipRouter w, output_response] q1"
  by (simp add: fields_endpoint_def preconditionsCheck_def)

lemma chain_output [simp]: "run_chain [output_response] q = output_response q"
  by (simp add: output_response_def)

lemma dispatch_csv:
  assumes "protocol q1 = Some ''http''" "qtype q1 = Some ''csv''" "compression q1 = None"
  shows "run_chain [arcgisRouter w, geojsonRouter w, csvRouter w, zipRouter w, output_response] q1
           = (case sampleCsv w q1 of Next q2 \<Rightarrow> output_response q2 | other \<Rightarrow> other)"
proof -
  have a: "arcgisRouter w q1 = Next q1" "geojsonRouter w q1 = Next q1"
    using assms by (simp_all add: arcgisRouter_def geojsonRouter_def router_decline)
  have c: "csvRouter w q1 = (case sampleCsv w q1 of NextRoute q2 \<Rightarrow> Next q2 | other \<Rightarrow> other)"
    using assms by (simp add: csvRouter_def router_accept)
  have nr: "sampleCsv w q1 \<noteq> NextRoute x" for x
    by (auto simp: sampleCsv_def Let_def split: http_reply.splits if_splits prod.splits ending.splits option.splits)
  show ?thesis
  proof (cases "sampleCsv w q1")
    case (Next q2)
    then have "qtype q2 = Some ''csv''"
      using sampleCsv_Next [OF Next] assms by (auto simp: csv_records_same)
    then have "zipRouter w q2 = Next q2"
      by (simp add: zipRouter_def router_decline)
    with a c Next show ?thesis by (simp del: run_chain.simps add: run_chain.simps(2) [where hs = "_ # _"])
  next
    case (NextRoute x)
    with nr [of x] show ?thesis by blast
  qed (use a c in simp_all)
qed

lemma dispatch_geojson:
  assumes "protocol q1 = Some ''http''" "qtype q1 = Some ''geojson''" "compression q1 = None"
  shows "run_chain [arcgisRouter w, geojsonRouter w, csvRouter w, zipRouter w, output_response] q1
           = (case sampleGeojson w q1 of Next q2 \<Rightarrow> output_response q2 | other \<Rightarrow> other)"
proof -
  have a: "arcgisRouter w q1 = Next q1"
    using assms by (simp_all add: arcgisRouter_def router_decline)
  have c: "geojsonRouter w q1 = (case sampleGeojson w q1 of NextRoute q2 \<Rightarrow> Next q2 | other \<Rightarrow> other)"
    using assms by (simp add: geojsonRouter_def router_accept)
  have nr: "sampleGeojson w q1 \<noteq> NextRoute x" for x
    by (auto simp: sampleGeojson_def Let_def split: if_splits prod.splits option.splits)
  show ?thesis
  proof (cases "sampleGeojson w q1")
    case (Next q2)
    then have "qtype q2 = Some ''geojson''"
      using sampleGeojson_Next [OF Next] assms by (auto simp: oboe_nodes_same)
    then have "csvRouter w q2 = Next q2" "zipRouter w q2 = Next q2"
      by (simp_all add: csvRouter_def zipRouter_def router_decline)
    with a c Next show ?thesis by (simp del: run_chain.simps add: run_chain.simps(2) [where hs = "_ # _"])
  next
    case (NextRoute x)
    with nr [of x] show ?thesis by blast
  qed (use a c in simp_all)
qed

lemma dispatch_zip:
  assumes "protocol q1 = Some ''http''" "qtype q1 = None" "compression q1 = Some ''zip''"
  shows "run_chain [arcgisRouter w, geojsonRouter w, csvRouter w, zipRouter w, output_response] q1
           = (case sampleZip w q1 of Next q2 \<Rightarrow> output_response q2
              | NextRoute q2 \<Rightarrow> output_response q2 | other \<Rightarrow> other)"
proof -
  have a: "arcgisRouter w q1 = Next q1" "geojsonRouter w q1 = Next q1" "csvRouter w q1 = Next q1"
    using assms by (simp_all add: arcgisRouter_def geojsonRouter_def csvRouter_def router_decline)
  have c: "zipRouter w q1 = (case sampleZip w q1 of NextRoute q2 \<Rightarrow> Next q2 | other \<Rightarrow> other)"
    using assms by (simp add: zipRouter_def router_accept)
  show ?thesis
    using a c by (simp split: step.splits)
qed

section \<open>The model on the small outside world\<close>

lemmas demo_defs =
  demo_world_def only_source_def csv_decoded_def geojson_decoded_def archive_events_def
  csv_text_def geojson_text_def

lemmas classify_defs = determineType_def rx_test_def arcgisRegexp_def endsWith_def is_digit_def

lemma demo_csv_classified:
  "determineType (only_source ''http://h/data.csv'')
     = Next ((only_source ''http://h/data.csv'')\<lparr>protocol := Some ''http'', qtype := Some ''csv''\<rparr>)"
  by (simp add: classify_defs only_source_def)

lemma demo_geojson_classified:
  "determineType (only_source ''http://h/data.geojson'')
     = Next ((only_source ''http://h/data.geojson'')\<lparr>protocol := Some ''http'', qtype := Some ''geojson''\<rparr>)"
  by (simp add: classify_defs only_source_def)

lemma demo_zip_classified:
  "determineType (only_source ''http://h/data.zip'')
     = Next ((only_source ''http://h/data.zip'')\<lparr>protocol := Some ''http'', compression := Some ''zip''\<rparr>)"
  by (simp add: classify_defs only_source_def)

lemmas sampler_defs =
  sampleArcgis_def sampleGeojson_def sampleCsv_def sampleZip_def on_event_def zip_start_def
  push_result_def results_length_def retrieving_def Let_def

lemma demo_geojson_response:
  "fields_endpoint demo_world (only_source ''http://h/data.geojson'')
     = Respond (Json 200
         \<lparr>body_type = Some ''http'', body_compression = None,
          body_data = Some ''http://h/data.geojson'',
          source_data_fields = Some [''NAME''],
          source_data_results = Some [Obj [(''NAME'', ''Foo''), (''KIND'', ''a'')],
                                      Obj [(''NAME'', ''Bar'')]],
          conform_type = Some ''geojson''\<rparr>)"
  by (simp add: endpoint_defs classify_defs demo_defs sampler_defs)

lemma demo_csv_response:
  "fields_endpoint demo_world (only_source ''http://h/data.csv'')
     = Respond (Json 200
         \<lparr>body_type = Some ''http'', body_compression = None,
          body_data = Some ''http://h/data.csv'',
          source_data_fields = Some [''LON'', ''LAT'', ''NAME''],
          source_data_results = Some [Obj [(''LON'', ''-122.1''), (''LAT'', ''37.5''), (''NAME'', ''Foo'')]],
          conform_type = Some ''csv''\<rparr>)"
  by (simp add: endpoint_defs classify_defs demo_defs sampler_defs)

lemma demo_zip_response:
  "fields_endpoint demo_world (only_source ''http://h/data.zip'')
     = Respond (Json 200
         \<lparr>body_type = Some ''http'', body_compression = Some ''zip'',
          body_data = Some ''http://h/data.zip'',
          source_data_fields = Some [''NAME''],
          source_data_results =
            Some [Obj [(''LON'', ''-122.1''), (''LAT'', ''37.5''), (''NAME'', ''Foo'')],
                  Obj [(''NAME'', ''Foo''), (''KIND'', ''a'')], Obj [(''NAME'', ''Bar'')]],
          conform_type = Some ''geojson''\<rparr>)"
  by (simp add: endpoint_defs classify_defs demo_defs sampler_defs)

section \<open>Requests that no sampler takes\<close>

text \<open>
  C10. A source that ends in \<open>.csv\<close> sent with \<open>compression=zip\<close>, and a source that
  ends in \<open>.zip\<close> sent with \<open>type=csv\<close>, both leave \<open>determineType\<close> as protocol
  \<open>http\<close>, type \<open>csv\<close>, compression \<open>zip\<close>. Each of the four routers passes such a
  request on untouched, whatever the outside world holds, and the answer is 200 with
  neither \<open>fields\<close> nor \<open>results\<close>. The same \<open>.csv\<close> source sent alone is sampled.
\<close>

theorem caller_parameters_bypass_samplers:
  "determineType ((only_source ''http://h/data.csv'')\<lparr>compression := Some ''zip''\<rparr>)
     = Next (csv_sent_as_zip :: string query)
   \<and> arcgisRouter w csv_sent_as_zip = Next csv_sent_as_zip
   \<and> geojsonRouter w csv_sent_as_zip = Next csv_sent_as_zip
   \<and> csvRouter w csv_sent_as_zip = Next csv_sent_as_zip
   \<and> zipRouter w csv_sent_as_zip = Next csv_sent_as_zip
   \<and> fields_endpoint w ((only_source ''http://h/data.csv'')\<lparr>compression := Some ''zip''\<rparr>)
     = Respond (Json 200
         \<lparr>body_type = Some ''http'', body_compression = Some ''zip'',
          body_data = Some ''http://h/data.csv'',
          source_data_fields = None, source_data_results = None, conform_type = Some ''csv''\<rparr>)
   \<and> determineType ((only_source ''http://h/data.zip'')\<lparr>qtype := Some ''csv''\<rparr>)
     = Next zip_sent_as_csv
   \<and> arcgisRouter w zip_sent_as_csv = Next zip_sent_as_csv
   \<and> geojsonRouter w zip_sent_as_csv = Next zip_sent_as_csv
   \<and> csvRouter w zip_sent_as_csv = Next zip_sent_as_csv
   \<and> zipRouter w zip_sent_as_csv = Next zip_sent_as_csv
   \<and> fields_endpoint w ((only_source ''http://h/data.zip'')\<lparr>qtype := Some ''csv''\<rparr>)
     = Respond (Json 200
         \<lparr>body_type = Some ''http'', body_compression = Some ''zip'',
          body_data = Some ''http://h/data.zip'',
          source_data_fields = None, source_data_results = None, conform_type = Some ''csv''\<rparr>)
   \<and> fields_endpoint demo_world (only_source ''http://h/data.csv'')
     = Respond (Json 200
         \<lparr>body_type = Some ''http'', body_compression = None,
          body_data = Some ''http://h/data.csv'',
          source_data_fields = Some [''LON'', ''LAT'', ''NAME''],
          source_data_results =
            Some [Obj [(''LON'', ''-122.1''), (''LAT'', ''37.5''), (''NAME'', ''Foo'')]],
          conform_type = Some ''csv''\<rparr>)"
  by (simp add: endpoint_defs classify_defs demo_defs sampler_defs csv_sent_as_zip_def
      zip_sent_as_csv_def)

section \<open>Sample size\<close>

text \<open>
  C2. A request whose source \<open>determineType\<close> classifies as a direct CSV or GeoJSON
  file (protocol \<open>http\<close>, no compression), and whose stream yields its records and
  ends without a failure, is answered with status 200 and \<open>results\<close> holds the first
  ten records of the stream: \<open>min 10 total\<close> of them. A stream that ends with fewer
  than ten is answered in the same way.
\<close>

theorem sample_length:
  assumes "source q = Some s" "s \<noteq> []" "determineType q = Next q1"
    and "protocol q1 = Some ''http''" "compression q1 = None"
  shows
    "(qtype q1 = Some ''csv'' \<and> request w s = Response 200 b \<and> parse_error (csvParse w b) = None
        \<longrightarrow> (\<exists>sent. fields_endpoint w q = Respond (Json 200 sent)
              \<and> source_data_results sent = Some (map Obj (take 10 (records (csvParse w b))))
              \<and> length (map Obj (take 10 (records (csvParse w b))))
                  = min 10 (length (records (csvParse w b)))))
   \<and> (qtype q1 = Some ''geojson'' \<and> failure (oboe_url w s) = None
        \<longrightarrow> (\<exists>sent. fields_endpoint w q = Respond (Json 200 sent)
              \<and> source_data_results sent = Some (map properties (take 10 (features (oboe_url w s))))
              \<and> length (map properties (take 10 (features (oboe_url w s))))
                  = min 10 (length (features (oboe_url w s)))))"
proof (intro conjI impI)
  assume h: "qtype q1 = Some ''csv'' \<and> request w s = Response 200 b \<and> parse_error (csvParse w b) = None"
  have src: "source q1 = Some s"
    using assms(1,3) by (auto simp: determineType_def Let_def split: if_splits)
  let ?q2 = "snd (csv_records (records (csvParse w b)) (q1\<lparr>qresults := Some []\<rparr>))"
  have "sampleCsv w q1 = Next ?q2"
    using h src by (simp add: sampleCsv_def Let_def split: prod.splits ending.splits)
  then have "fields_endpoint w q = output_response ?q2"
    using endpoint_classified [OF assms(1,2,3)] dispatch_csv [of q1 w] assms h by simp
  moreover have "qresults ?q2 = Some (map Obj (take 10 (records (csvParse w b))))"
    using csv_records_results [of "q1\<lparr>qresults := Some []\<rparr>" "[]"] by simp
  ultimately show "\<exists>sent. fields_endpoint w q = Respond (Json 200 sent)
              \<and> source_data_results sent = Some (map Obj (take 10 (records (csvParse w b))))
              \<and> length (map Obj (take 10 (records (csvParse w b))))
                  = min 10 (length (records (csvParse w b)))"
    by (simp add: output_response_def min.commute)
next
  assume h: "qtype q1 = Some ''geojson'' \<and> failure (oboe_url w s) = None"
  have src: "source q1 = Some s"
    using assms(1,3) by (auto simp: determineType_def Let_def split: if_splits)
  let ?q2 = "snd (oboe_nodes 0 (features (oboe_url w s)) (q1\<lparr>qresults := Some []\<rparr>))"
  have "sampleGeojson w q1 = Next ?q2"
    using h src by (simp add: sampleGeojson_def Let_def split: prod.splits)
  then have "fields_endpoint w q = output_response ?q2"
    using endpoint_classified [OF assms(1,2,3)] dispatch_geojson [of q1 w] assms h by simp
  moreover have "qresults ?q2 = Some (map properties (take 10 (features (oboe_url w s))))"
    using oboe_nodes_results [of "q1\<lparr>qresults := Some []\<rparr>" "[]" 0] by simp
  ultimately show "\<exists>sent. fields_endpoint w q = Respond (Json 200 sent)
              \<and> source_data_results sent = Some (map properties (take 10 (features (oboe_url w s))))
              \<and> length (map properties (take 10 (features (oboe_url w s))))
                  = min 10 (length (features (oboe_url w s)))"
    by (simp add: output_response_def min.commute)
qed

theorem sample_length_witness:
  "(\<exists>sent. fields_endpoint demo_world (only_source ''http://h/data.csv'') = Respond (Json 200 sent)
      \<and> source_data_results sent
          = Some [Obj [(''LON'', ''-122.1''), (''LAT'', ''37.5''), (''NAME'', ''Foo'')]])
   \<and> (\<exists>sent. fields_endpoint demo_world (only_source ''http://h/data.geojson'')
          = Respond (Json 200 sent)
      \<and> source_data_results sent
          = Some [Obj [(''NAME'', ''Foo''), (''KIND'', ''a'')], Obj [(''NAME'', ''Bar'')]])"
  using sample_length [OF _ _ demo_csv_classified, of "''http://h/data.csv''" demo_world csv_text]
    sample_length [OF _ _ demo_geojson_classified, of "''http://h/data.geojson''" demo_world]
  by (simp add: demo_defs)

section \<open>The reported fields\<close>

text \<open>
  C4. When a CSV, GeoJSON or zip sampler has run and the response carries at least one
  record, \<open>fields\<close> is the key list of the last record of \<open>results\<close>, in that
  record's order; for an archive this holds in whatever order its decoders report. The two features of the GeoJSON file of the small outside world have
  the keys \<open>NAME, KIND\<close> and \<open>NAME\<close>: the response reports \<open>NAME\<close> alone, not the
  union.
\<close>

theorem fields_of_last_record:
  assumes "source q = Some s" "s \<noteq> []" "determineType q = Next q1"
    and "protocol q1 = Some ''http''"
    and "(qtype q1 = Some ''csv'' \<or> qtype q1 = Some ''geojson'') \<and> compression q1 = None
         \<or> qtype q1 = None \<and> compression q1 = Some ''zip''"
    and "fields_endpoint w q = Respond (Json 200 sent)"
    and "source_data_results sent = Some rs" "rs \<noteq> []"
  shows "source_data_fields sent = Some (keys (last rs))"
proof -
  note e = endpoint_classified [OF assms(1,2,3), of w]
  consider
    (csv) "qtype q1 = Some ''csv''" "compression q1 = None"
  | (geojson) "qtype q1 = Some ''geojson''" "compression q1 = None"
  | (zip) "qtype q1 = None" "compression q1 = Some ''zip''"
    using assms(5) by auto
  then obtain q2 where "output_response q2 = Respond (Json 200 sent)" "fields_inv q2"
  proof cases
    case csv
    from e dispatch_csv [OF assms(4) csv, of w] assms(6)
    have "(case sampleCsv w q1 of Next q2 \<Rightarrow> output_response q2 | other \<Rightarrow> other)
            = Respond (Json 200 sent)" by simp
    then obtain q2 where "sampleCsv w q1 = Next q2" "output_response q2 = Respond (Json 200 sent)"
      using sampleCsv_not_Json [of w q1] by (cases "sampleCsv w q1") auto
    with that sampleCsv_inv show ?thesis by blast
  next
    case geojson
    from e dispatch_geojson [OF assms(4) geojson, of w] assms(6)
    have "(case sampleGeojson w q1 of Next q2 \<Rightarrow> output_response q2 | other \<Rightarrow> other)
            = Respond (Json 200 sent)" by simp
    then obtain q2 where "sampleGeojson w q1 = Next q2" "output_response q2 = Respond (Json 200 sent)"
      using sampleGeojson_not_Json [of w q1] by (cases "sampleGeojson w q1") auto
    with that sampleGeojson_inv show ?thesis by blast
  next
    case zip
    from e dispatch_zip [OF assms(4) zip, of w] assms(6)
    have "(case sampleZip w q1 of Next q2 \<Rightarrow> output_response q2
            | NextRoute q2 \<Rightarrow> output_response q2 | other \<Rightarrow> other)
            = Respond (Json 200 sent)" by simp
    then obtain q2 where "sampleZip w q1 = Next q2" "output_response q2 = Respond (Json 200 sent)"
      using sampleZip_not_Json [of w q1] sampleZip_not_NextRoute [of w q1]
      by (cases "sampleZip w q1") auto
    with that sampleZip_Next show ?thesis by blast
  qed
  then show ?thesis
    using output_fields assms(7,8) by blast
qed

theorem fields_of_last_record_witness:
  "(\<exists>sent. fields_endpoint demo_world (only_source ''http://h/data.geojson'')
              = Respond (Json 200 sent)
      \<and> source_data_results sent
          = Some [Obj [(''NAME'', ''Foo''), (''KIND'', ''a'')], Obj [(''NAME'', ''Bar'')]]
      \<and> source_data_fields sent = Some [''NAME''])
   \<and> (\<exists>sent. fields_endpoint demo_world (only_source ''http://h/data.csv'')
              = Respond (Json 200 sent)
      \<and> source_data_results sent
          = Some [Obj [(''LON'', ''-122.1''), (''LAT'', ''37.5''), (''NAME'', ''Foo'')]]
      \<and> source_data_fields sent = Some [''LON'', ''LAT'', ''NAME''])
   \<and> (\<exists>sent rs. fields_endpoint demo_world (only_source ''http://h/data.zip'')
              = Respond (Json 200 sent)
      \<and> source_data_results sent = Some rs \<and> length rs = 3
      \<and> last rs = Obj [(''NAME'', ''Bar'')]
      \<and> source_data_fields sent = Some [''NAME''])"
proof -
  have g: "source_data_fields sent = Some [''NAME'']"
    if "fields_endpoint demo_world (only_source ''http://h/data.geojson'') = Respond (Json 200 sent)"
      and "source_data_results sent
          = Some [Obj [(''NAME'', ''Foo''), (''KIND'', ''a'')], Obj [(''NAME'', ''Bar'')]]"
    for sent
    using fields_of_last_record [OF _ _ demo_geojson_classified _ _ that(1) that(2)]
    by (simp add: only_source_def)
  have c: "source_data_fields sent = Some [''LON'', ''LAT'', ''NAME'']"
    if "fields_endpoint demo_world (only_source ''http://h/data.csv'') = Respond (Json 200 sent)"
      and "source_data_results sent
          = Some [Obj [(''LON'', ''-122.1''), (''LAT'', ''37.5''), (''NAME'', ''Foo'')]]"
    for sent
    using fields_of_last_record [OF _ _ demo_csv_classified _ _ that(1) that(2)]
    by (simp add: only_source_def)
  have z: "source_data_fields sent = Some [''NAME'']"
    if "fields_endpoint demo_world (only_source ''http://h/data.zip'') = Respond (Json 200 sent)"
      and "source_data_results sent
          = Some [Obj [(''LON'', ''-122.1''), (''LAT'', ''37.5''), (''NAME'', ''Foo'')],
                  Obj [(''NAME'', ''Foo''), (''KIND'', ''a'')], Obj [(''NAME'', ''Bar'')]]"
    for sent
    using fields_of_last_record [OF _ _ demo_zip_classified _ _ that(1) that(2)]
    by (simp add: only_source_def)
  show ?thesis
    using g c z demo_geojson_response demo_csv_response demo_zip_response by simp
qed

section \<open>Error reports of the samplers\<close>

lemma string_of_nat_404: "string_of_nat 404 = ''404''"
  by (simp add: string_of_nat.simps digit_char_def)

lemma demo_down_csv_classified:
  "determineType (only_source ''http://down/a.csv'')
     = Next ((only_source ''http://down/a.csv'')\<lparr>protocol := Some ''http'', qtype := Some ''csv''\<rparr>)"
  by (simp add: classify_defs only_source_def)

lemma demo_missing_csv_classified:
  "determineType (only_source ''http://h/missing.csv'')
     = Next ((only_source ''http://h/missing.csv'')\<lparr>protocol := Some ''http'', qtype := Some ''csv''\<rparr>)"
  by (simp add: classify_defs only_source_def)

lemma demo_broken_geojson_classified:
  "determineType (only_source ''http://h/broken.geojson'')
     = Next ((only_source ''http://h/broken.geojson'')\<lparr>protocol := Some ''http'', qtype := Some ''geojson''\<rparr>)"
  by (simp add: classify_defs only_source_def)

text \<open>
  C8, as the code has it. For a direct CSV source a failure of the request before any
  response is answered with 400 and \<open>Error retrieving file <source>: <code>\<close>, and a
  response with a status other than 200 with
  \<open>Error retrieving file <source>: <body> (<status>)\<close>. For a direct GeoJSON source
  every failure that the decoder reports before the tenth feature, of the transport or
  in the middle of the document alike, is answered by one handler with 400 and
  \<open>Error retrieving file <source>: <body> (<status>)\<close>. Each of these messages holds
  the source locator.
\<close>

theorem sample_error_reports:
  assumes "source q = Some s" "s \<noteq> []" "determineType q = Next q1"
    and "protocol q1 = Some ''http''" "compression q1 = None"
  shows
    "(qtype q1 = Some ''csv'' \<and> request w s = RequestError code
        \<longrightarrow> fields_endpoint w q
              = Respond (PlainText 400 (''Error retrieving file '' @ s @ '': '' @ code)))
   \<and> (qtype q1 = Some ''csv'' \<and> request w s = Response status msg \<and> status \<noteq> 200
        \<longrightarrow> fields_endpoint w q
              = Respond (PlainText 400
                  (''Error retrieving file '' @ s @ '': '' @ msg
                     @ '' ('' @ string_of_nat status @ '')'')))
   \<and> (qtype q1 = Some ''geojson'' \<and> failure (oboe_url w s) = Some err
          \<and> length (features (oboe_url w s)) < 10
        \<longrightarrow> fields_endpoint w q
              = Respond (PlainText 400
                  (''Error retrieving file '' @ s @ '': '' @ show_string (body err)
                     @ '' ('' @ show_number (statusCode err) @ '')'')))"
proof -
  have src: "source q1 = Some s"
    using assms(1,3) by (auto simp: determineType_def Let_def split: if_splits)
  note e = endpoint_classified [OF assms(1,2,3), of w]
  have na: "\<not> fst (oboe_nodes i fs q0)" if "i + length fs < 10" for i fs and q0 :: "'a query"
    using that by (induction fs arbitrary: i q0) (simp_all add: Let_def)
  show ?thesis
  proof (intro conjI impI)
    assume "qtype q1 = Some ''csv'' \<and> request w s = RequestError code"
    then show "fields_endpoint w q
              = Respond (PlainText 400 (''Error retrieving file '' @ s @ '': '' @ code))"
      using e dispatch_csv [of q1 w] assms(4,5) src
      by (simp add: sampleCsv_def retrieving_def)
  next
    assume "qtype q1 = Some ''csv'' \<and> request w s = Response status msg \<and> status \<noteq> 200"
    then show "fields_endpoint w q
              = Respond (PlainText 400
                  (''Error retrieving file '' @ s @ '': '' @ msg
                     @ '' ('' @ string_of_nat status @ '')''))"
      using e dispatch_csv [of q1 w] assms(4,5) src
      by (simp add: sampleCsv_def retrieving_def)
  next
    assume h: "qtype q1 = Some ''geojson'' \<and> failure (oboe_url w s) = Some err
          \<and> length (features (oboe_url w s)) < 10"
    then have "\<not> fst (oboe_nodes 0 (features (oboe_url w s)) (q1\<lparr>qresults := Some []\<rparr>))"
      using na [of 0 "features (oboe_url w s)"] by simp
    then obtain q2 where
      "oboe_nodes 0 (features (oboe_url w s)) (q1\<lparr>qresults := Some []\<rparr>) = (False, q2)"
      by (cases "oboe_nodes 0 (features (oboe_url w s)) (q1\<lparr>qresults := Some []\<rparr>)") auto
    then have "sampleGeojson w q1
        = Respond (PlainText 400
                  (''Error retrieving file '' @ s @ '': '' @ show_string (body err)
                     @ '' ('' @ show_number (statusCode err) @ '')''))"
      using h src by (simp add: sampleGeojson_def retrieving_def Let_def)
    then show "fields_endpoint w q
              = Respond (PlainText 400
                  (''Error retrieving file '' @ s @ '': '' @ show_string (body err)
                     @ '' ('' @ show_number (statusCode err) @ '')''))"
      using e dispatch_geojson [of q1 w] assms(4,5) h by simp
  qed
qed

theorem sample_error_reports_witness:
  "fields_endpoint demo_world (only_source ''http://down/a.csv'')
     = Respond (PlainText 400 ''Error retrieving file http://down/a.csv: ECONNREFUSED'')
   \<and> fields_endpoint demo_world (only_source ''http://h/missing.csv'')
     = Respond (PlainText 400 ''Error retrieving file http://h/missing.csv: Not Found (404)'')
   \<and> fields_endpoint demo_world (only_source ''http://h/broken.geojson'')
     = Respond (PlainText 400
         ''Error retrieving file http://h/broken.geojson: undefined (undefined)'')"
  using
    sample_error_reports [OF _ _ demo_down_csv_classified,
      of "''http://down/a.csv''" demo_world "''ECONNREFUSED''"]
    sample_error_reports [OF _ _ demo_missing_csv_classified,
      of "''http://h/missing.csv''" demo_world _ 404 "''Not Found''"]
    sample_error_reports [OF _ _ demo_broken_geojson_classified,
      of "''http://h/broken.geojson''" demo_world _ _ _
         "\<lparr>statusCode = None, body = None, thrown = Some ''parse error''\<rparr>"]
  by (simp add: demo_defs string_of_nat_404)

text \<open>
  C8 as stated fails. An ArcGIS source whose host refuses the connection gets no error
  response: the callback reads the status of a response that is not there. A GeoJSON
  source whose host refuses the connection and one whose document breaks off after the
  first feature are answered with the same wording, so the two kinds of failure are not
  told apart.
\<close>

theorem sample_errors_not_distinct:
  "fields_endpoint demo_world (only_source ''http://down/MapServer/0'') = Throws ''TypeError''
   \<and> fields_endpoint demo_world (only_source ''http://down/a.geojson'')
     = Respond (PlainText 400
         ''Error retrieving file http://down/a.geojson: undefined (undefined)'')
   \<and> fields_endpoint demo_world (only_source ''http://h/broken.geojson'')
     = Respond (PlainText 400
         ''Error retrieving file http://h/broken.geojson: undefined (undefined)'')"
  by (simp add: endpoint_defs classify_defs demo_defs sampler_defs)

section \<open>Entries of an archive\<close>

text \<open>
  C1 on the sample endpoint. Whatever has happened before, the \<open>entry\<close> listener of
  \<open>sampleZip\<close> starts a decoder on every entry whose path ends in \<open>.csv\<close> or
  \<open>.geojson\<close>: it does not look whether an earlier entry has matched. On the archive of
  the specification's own example (\<open>readme.txt\<close>, \<open>data.csv\<close>, \<open>extra.geojson\<close>) it
  drains the first entry and sends both others to a decoder.
\<close>

theorem sampleZip_decodes_later_match:
  "routed (on_event (Entry i p) z)
     = routed z @ [if endsWith p ''.csv'' then Decode_csv p
                   else if endsWith p ''.geojson'' then Decode_geojson p
                   else Autodrain p]
   \<and> routed (on_events archive_events
       (zip_start ((only_source ''http://h/data.zip'')
                     \<lparr>protocol := Some ''http'', compression := Some ''zip''\<rparr>)))
     = [Autodrain ''readme.txt'', Decode_csv ''data.csv'', Decode_geojson ''extra.geojson'']"
  by (simp add: on_event_def zip_start_def archive_events_def endsWith_def push_result_def
      results_length_def Let_def)

section \<open>The dataset resolver\<close>

lemmas double_defs = nearest_double_def binary_exponent_def round_half_even_def scale2_def
  bit_length.simps Let_def

lemmas parse_defs = parseFloat_def space_length_def is_digit_def digits_value_def
  digit_value_def exponent_def double_defs

lemmas dl_defs = download_route_def preconditionsCheck_download_def setupTemp_def getMetaData_def
  getData_def cleanupTemp_def send_def outputHandlers_def isOutputFormatSupported_def
  handleCatastrophicError_def handlePlainTextNonCatastrophicError_def responseIsPlainText_def
  respondWithCsv_def respondWithCsv_piped_def respondWithGeojson_call_def
  respondWithGeojson_stream_def on_zip_event_def settle_def write_point_def fresh_def
  demo_dl_world_def feed_records_def csv_text_def csv_decoded_def endsWith_def Let_def

lemma metadata_records_find:
  "metadata_records rs st =
     (case find (\<lambda>r. map_of r ''source'' = locals_source st) rs of
        None \<Rightarrow> (Finish, rs, st)
      | Some r \<Rightarrow>
          (Close, takeWhile (\<lambda>r. map_of r ''source'' \<noteq> locals_source st) rs @ [r],
           st\<lparr>datafile := map_of r ''processed''\<rparr>))"
  by (induction rs) (auto split: option.splits)

text \<open>
  C6. With the feed fetched (status 200), the key is \<open>req.baseUrl\<close> without its first
  \<open>/download/\<close>. If some record of the feed has that key in its \<open>source\<close> column,
  \<open>getMetaData\<close> stores the \<open>processed\<close> column of the first such record, whatever
  follows it in the feed, and hands on; the records its function was called with are
  those before that record and the record itself. If the feed ends without such a
  record and without a decoder error, the route answers 400 with
  \<open>Unable to find <key> in <feed location>\<close>.
\<close>

theorem resolver_first_match:
  assumes "OPENADDRESSES_METADATA_FILE w = Some file"
    and "dl_request w file = DlResponse 200 ct feed"
  shows
    "(find (\<lambda>r. map_of r ''source'' = Some (js_replace ''/download/'' [] (baseUrl st)))
         (records (csvParse_tab w feed)) = Some r
       \<longrightarrow> getMetaData w next st
             = next (st\<lparr>locals_source := Some (js_replace ''/download/'' [] (baseUrl st)),
                        datafile := map_of r ''processed''\<rparr>)
           \<and> fst (snd (metadata_records (records (csvParse_tab w feed))
                  (st\<lparr>locals_source := Some (js_replace ''/download/'' [] (baseUrl st))\<rparr>)))
             = takeWhile (\<lambda>r. map_of r ''source''
                              \<noteq> Some (js_replace ''/download/'' [] (baseUrl st)))
                 (records (csvParse_tab w feed)) @ [r])
   \<and> (find (\<lambda>r. map_of r ''source'' = Some (js_replace ''/download/'' [] (baseUrl st)))
         (records (csvParse_tab w feed)) = None
        \<and> parse_error (csvParse_tab w feed) = None \<and> datafile st = None \<and> \<not> headersSent st
       \<longrightarrow> getMetaData w (getData w next) st
             = Done (st\<lparr>locals_source := Some (js_replace ''/download/'' [] (baseUrl st)),
                        statusCode_sent := 400, contentType := Some ''application/json'',
                        headersSent := True,
                        written := written st
                          @ [ErrorObject 400
                               (''Unable to find '' @ js_replace ''/download/'' [] (baseUrl st)
                                  @ '' in '' @ file)],
                        ended := True\<rparr>))"
  using assms
  by (simp add: getMetaData_def getData_def send_def metadata_records_find Let_def)

theorem resolver_first_match_witness:
  "getMetaData demo_dl_world Done (fresh ''/download/us/dup'' None)
     = Done ((fresh ''/download/us/dup'' None)
              \<lparr>locals_source := Some ''us/dup'', datafile := Some ''http://data/empty.zip''\<rparr>)
   \<and> fst (snd (metadata_records feed_records
         ((fresh ''/download/us/dup'' None)\<lparr>locals_source := Some ''us/dup''\<rparr>)))
     = [[(''source'', ''us/ca/x''), (''processed'', ''http://data/us-ca.zip'')],
        [(''source'', ''us/dup''), (''processed'', ''http://data/empty.zip'')]]
   \<and> getMetaData demo_dl_world (getData demo_dl_world Done) (fresh ''/download/us/none'' None)
     = Done ((fresh ''/download/us/none'' None)
              \<lparr>locals_source := Some ''us/none'',
               statusCode_sent := 400, contentType := Some ''application/json'',
               headersSent := True,
               written := [ErrorObject 400
                             ''Unable to find us/none in http://results/state.txt''],
               ended := True\<rparr>)"
  using
    resolver_first_match [of demo_dl_world "''http://results/state.txt''"
      "Some ''text/plain''" "''feed''" "fresh ''/download/us/dup'' None"
      "[(''source'', ''us/dup''), (''processed'', ''http://data/empty.zip'')]" Done]
    resolver_first_match [of demo_dl_world "''http://results/state.txt''"
      "Some ''text/plain''" "''feed''" "fresh ''/download/us/none'' None" _ Done]
  by (simp add: demo_dl_world_def feed_records_def fresh_def)

section \<open>Numbers\<close>

text \<open>
  The parts of \<open>nearest_double\<close>: \<open>bit_length\<close> is the number of binary digits,
  \<open>binary_exponent p q\<close> is the exponent \<open>e\<close> with \<open>2 ^ e \<le> p / q < 2 ^ (e + 1)\<close>, and
  \<open>round_half_even n d\<close> is within a half of \<open>n / d\<close>.
\<close>

lemma bit_length_bounds:
  "0 < n \<Longrightarrow> 2 ^ (bit_length n - 1) \<le> n \<and> n < 2 ^ bit_length n"
proof (induction n rule: bit_length.induct)
  case (1 n)
  show ?case
  proof (cases "n div 2 = 0")
    case True
    with "1.prems" have "n = 1" by presburger
    then show ?thesis by (simp add: bit_length.simps)
  next
    case False
    then have pos: "0 < n div 2" by simp
    from "1.IH" [OF _ pos] "1.prems"
    have ih: "2 ^ (bit_length (n div 2) - 1) \<le> n div 2" "n div 2 < 2 ^ bit_length (n div 2)"
      by simp_all
    have bl: "bit_length n = Suc (bit_length (n div 2))"
      using "1.prems" by (subst bit_length.simps) simp
    have bpos: "0 < bit_length (n div 2)"
      using pos by (subst bit_length.simps) simp
    then obtain k where k: "bit_length (n div 2) = Suc k"
      by (cases "bit_length (n div 2)") auto
    from ih k have "(2::nat) ^ k \<le> n div 2" "n div 2 < 2 * 2 ^ k"
      by simp_all
    then have "2 * 2 ^ k \<le> n" "n < 2 * (2 * 2 ^ k)"
      by arith+
    with bl k show ?thesis by simp
  qed
qed

lemma scale2_powi: "scale2 1 k = 2 powi k"
  by (simp add: scale2_def power_int_def field_simps)

lemma bit_length_powi:
  assumes "0 < n"
  shows "(2::rat) powi (int (bit_length n) - 1) \<le> of_nat n"
    and "of_nat n < (2::rat) powi int (bit_length n)"
proof -
  from bit_length_bounds [OF assms]
  have b: "2 ^ (bit_length n - 1) \<le> n" "n < 2 ^ bit_length n" by simp_all
  from assms have pos: "0 < bit_length n"
    by (subst bit_length.simps) simp
  then have "int (bit_length n) - 1 = int (bit_length n - 1)" by simp
  then have "(2::rat) powi (int (bit_length n) - 1) = of_nat (2 ^ (bit_length n - 1))"
    by (simp only: power_int_of_nat of_nat_power of_nat_numeral)
  also have "\<dots> \<le> of_nat n" using b(1) by (simp only: of_nat_le_iff)
  finally show "(2::rat) powi (int (bit_length n) - 1) \<le> of_nat n" .
  have "(of_nat n :: rat) < of_nat (2 ^ bit_length n)" using b(2) by (simp only: of_nat_less_iff)
  also have "\<dots> = 2 powi int (bit_length n)"
    by (simp only: power_int_of_nat of_nat_power of_nat_numeral)
  finally show "of_nat n < (2::rat) powi int (bit_length n)" .
qed

lemma exponent_test:
  assumes "0 < q"
  shows "(2 ^ nat d * q \<le> p * 2 ^ nat (- d)) \<longleftrightarrow> ((2::rat) powi d \<le> of_nat p / of_nat q)"
proof (cases "0 \<le> d")
  case True
  then have "(2::rat) powi d * of_nat q = of_nat (2 ^ nat d * q)"
    by (simp add: power_int_def)
  moreover from True have "p * 2 ^ nat (- d) = p" by simp
  ultimately have "(2 ^ nat d * q \<le> p * 2 ^ nat (- d)) \<longleftrightarrow> ((2::rat) powi d * of_nat q \<le> of_nat p)"
    by (simp only: of_nat_le_iff)
  with assms show ?thesis by (simp add: pos_le_divide_eq)
next
  case False
  define c :: rat where "c = of_nat (2 ^ nat (- d))"
  have c: "0 < c" by (simp add: c_def)
  from False have "(2::rat) powi d = 1 / c"
    by (simp add: power_int_def c_def field_simps)
  moreover from False have "nat d = 0" by simp
  moreover have "(of_nat q \<le> of_nat p * c) \<longleftrightarrow> (q \<le> p * 2 ^ nat (- d))"
    unfolding c_def by (simp only: of_nat_le_iff flip: of_nat_mult)
  moreover from c assms have "(1 / c \<le> of_nat p / of_nat q) \<longleftrightarrow> (of_nat q \<le> of_nat p * c)"
    by (simp add: field_simps)
  ultimately show ?thesis by simp
qed

lemma binary_exponent_bounds:
  assumes "0 < p" "0 < q"
  shows "scale2 1 (binary_exponent p q) \<le> of_nat p / of_nat q
       \<and> of_nat p / of_nat q < scale2 1 (binary_exponent p q + 1)"
proof -
  define d where "d = int (bit_length p) - int (bit_length q)"
  let ?x = "of_nat p / of_nat q :: rat"
  from assms have q: "(0::rat) < of_nat q" and p: "(0::rat) < of_nat p" by simp_all
  have "?x < 2 powi int (bit_length p) / 2 powi (int (bit_length q) - 1)"
    using bit_length_powi(2) [OF assms(1)] bit_length_powi(1) [OF assms(2)] p q
    by (intro frac_less) simp_all
  also have "\<dots> = 2 powi (int (bit_length p) - (int (bit_length q) - 1))"
    using power_int_diff [of "2::rat" "int (bit_length p)" "int (bit_length q) - 1"] by simp
  also have "int (bit_length p) - (int (bit_length q) - 1) = d + 1"
    by (simp add: d_def)
  finally have upper: "?x < 2 powi (d + 1)" .
  have "d - 1 = int (bit_length p) - 1 - int (bit_length q)"
    by (simp add: d_def)
  also have "(2::rat) powi \<dots> = 2 powi (int (bit_length p) - 1) / 2 powi int (bit_length q)"
    using power_int_diff [of "2::rat" "int (bit_length p) - 1" "int (bit_length q)"] by simp
  also have "\<dots> < ?x"
    using bit_length_powi(1) [OF assms(1)] bit_length_powi(2) [OF assms(2)] p q
    by (intro frac_less2) simp_all
  finally have lower: "2 powi (d - 1) < ?x" .
  show ?thesis
  proof (cases "2 ^ nat d * q \<le> p * 2 ^ nat (- d)")
    case True
    then have "binary_exponent p q = d" by (simp add: binary_exponent_def d_def Let_def)
    moreover from True have "2 powi d \<le> ?x" by (simp only: exponent_test [OF assms(2)])
    ultimately show ?thesis using upper by (simp add: scale2_powi)
  next
    case False
    then have "binary_exponent p q = d - 1" by (simp add: binary_exponent_def d_def Let_def)
    moreover from False have "?x < 2 powi d" by (simp only: exponent_test [OF assms(2)] not_le)
    ultimately show ?thesis using lower by (simp add: scale2_powi)
  qed
qed

lemma round_half_even_nearest:
  assumes "0 < d"
  shows "2 * round_half_even n d * d \<le> 2 * n + d \<and> 2 * n \<le> 2 * round_half_even n d * d + d"
proof -
  define a where "a = n div d"
  define r where "r = n mod d"
  have n: "n = a * d + r" by (simp add: a_def r_def)
  from assms have r: "r < d" by (simp add: r_def)
  have m: "round_half_even n d = a \<and> 2 * r \<le> d \<or> round_half_even n d = a + 1 \<and> d \<le> 2 * r"
    by (auto simp add: round_half_even_def a_def r_def)
  then show ?thesis
  proof
    assume "round_half_even n d = a \<and> 2 * r \<le> d"
    then show ?thesis using r by (simp add: n algebra_simps)
  next
    assume "round_half_even n d = a + 1 \<and> d \<le> 2 * r"
    then show ?thesis using r by (simp add: n algebra_simps)
  qed
qed

text \<open>
  \<open>parseFloat\<close> on some strings: the double nearest to a tenth, two literals that round
  to the same double, a no-break space before the digits, a literal too large for a
  double, and the word that an absent column is read as.
\<close>

lemma parseFloat_examples:
  "parseFloat ''0.1'' = Finite (3602879701896397 / 36028797018963968)"
  "parseFloat ''0.1000000000000000055511151231257827'' = parseFloat ''0.1''"
  "parseFloat [CHR 0xC2, CHR 0xA0, CHR ''5''] = Finite 5"
  "parseFloat ''1e400'' = Infinite False"
  "parseFloat ''undefined'' = NaN"
  by (simp_all add: parse_defs)

section \<open>Conversion to points\<close>

lemma points_written_append:
  "points_written (xs @ ys) = points_written xs @ points_written ys"
  by (induction xs rule: points_written.induct) simp_all

lemma write_records_points:
  "points_written (snd (write_records rs cw))
     = points_written (snd cw) @ map record_to_point rs"
  by (induction rs arbitrary: cw) (simp_all add: write_point_def points_written_append)

lemma map_of_omit:
  "map_of (omit r ks) k = (if k \<in> set ks then None else map_of r k)"
  unfolding omit_def by (induction r) auto

text \<open>The handler as a whole is its call followed by its stream.\<close>

lemma respondWithGeojson_steps:
  "respondWithGeojson entry next st
     = and_then (respondWithGeojson_call st) (respondWithGeojson_stream entry next)"
  by (simp add: respondWithGeojson_def respondWithGeojson_call_def
      respondWithGeojson_stream_def Let_def split: option.splits)

lemma respondWithGeojson_ends:
  assumes "\<not> headersSent st" "parse_error entry = None"
  shows "\<exists>st1. respondWithGeojson entry next st = next st1
           \<and> points_written (written st1)
               = points_written (written st) @ map record_to_point (records entry)
           \<and> ended st1 \<and> statusCode_sent st1 = 200"
proof -
  let ?st1 = \<open>st\<lparr>statusCode_sent := 200, contentType := Some ''application/json'',
                  contentDisposition := Some ''attachment; filename=data.geojson'',
                  headersSent := True,
                  written := snd (write_records (records entry)
                                    (0, written st
                                        @ [Text ''{"type":"FeatureCollection","features":['']))
                             @ [Text '']}''],
                  ended := True\<rparr>\<close>
  have "respondWithGeojson entry next st = next ?st1"
    using assms by (simp add: respondWithGeojson_def Let_def)
  moreover have "points_written (written ?st1)
               = points_written (written st) @ map record_to_point (records entry)"
    by (simp add: write_records_points points_written_append)
  ultimately show ?thesis
    by (intro exI [of _ ?st1]) simp
qed

text \<open>
  C7. On a stream that ends without a decoder error, \<open>respondWithGeojson\<close> writes one
  point for each record, in order. The point of a record has geometry type \<open>Point\<close>,
  the coordinates \<open>parseFloat\<close> reads from the columns \<open>LON\<close> and \<open>LAT\<close>, and as
  properties the record without those two columns. For the record that the CSV decoder
  makes of the text \<open>LON,LAT,NAME\<close>, \<open>-122.1,37.5,Foo\<close>, the response is the header, the
  one point with coordinates -122.1 and 37.5 (the doubles nearest to \<open>- 1221 / 10\<close> and
  to \<open>75 / 2\<close>) and properties \<open>NAME: Foo\<close>, and the footer.
\<close>

theorem conversion_sink:
  \<open>(\<not> headersSent st \<and> parse_error entry = None
      \<longrightarrow> (\<exists>st1. respondWithGeojson entry next st = next st1
             \<and> points_written (written st1)
                 = points_written (written st) @ map record_to_point (records entry)))
   \<and> gtype (geometry (record_to_point r)) = ''Point''
   \<and> coordinates (geometry (record_to_point r))
       = [parseFloat (show_string (map_of r ''LON'')), parseFloat (show_string (map_of r ''LAT''))]
   \<and> map_of (point_properties (record_to_point r)) k
       = (if k = ''LON'' \<or> k = ''LAT'' then None else map_of r k)
   \<and> respondWithGeojson
        \<lparr>records = [[(''LON'', ''-122.1''), (''LAT'', ''37.5''), (''NAME'', ''Foo'')]],
         parse_error = None\<rparr>
        Done (fresh ''/download/us/ca/x'' (Some ''geojson''))
     = Done ((fresh ''/download/us/ca/x'' (Some ''geojson''))
         \<lparr>statusCode_sent := 200, contentType := Some ''application/json'',
          contentDisposition := Some ''attachment; filename=data.geojson'',
          headersSent := True,
          written :=
            [Text ''{"type":"FeatureCollection","features":['',
             Stringify \<lparr>geometry = \<lparr>gtype = ''Point'',
                                     coordinates = [nearest_double True 1221 10,
                                                    nearest_double False 75 2]\<rparr>,
                        point_properties = [(''NAME'', ''Foo'')]\<rparr>,
             Text '']}''],
          ended := True\<rparr>)
   \<and> nearest_double True 1221 10 = Finite (- 4296011832046387 / 35184372088832)
   \<and> nearest_double False 75 2 = Finite (75 / 2)\<close>
proof (intro conjI impI)
  assume "\<not> headersSent st \<and> parse_error entry = None"
  then show "\<exists>st1. respondWithGeojson entry next st = next st1
             \<and> points_written (written st1)
                 = points_written (written st) @ map record_to_point (records entry)"
    using respondWithGeojson_ends [of st entry "next"] by blast
next
  show "map_of (point_properties (record_to_point r)) k
       = (if k = ''LON'' \<or> k = ''LAT'' then None else map_of r k)"
    by (simp add: record_to_point_def map_of_omit)
next
  show \<open>respondWithGeojson
        \<lparr>records = [[(''LON'', ''-122.1''), (''LAT'', ''37.5''), (''NAME'', ''Foo'')]],
         parse_error = None\<rparr>
        Done (fresh ''/download/us/ca/x'' (Some ''geojson''))
     = Done ((fresh ''/download/us/ca/x'' (Some ''geojson''))
         \<lparr>statusCode_sent := 200, contentType := Some ''application/json'',
          contentDisposition := Some ''attachment; filename=data.geojson'',
          headersSent := True,
          written :=
            [Text ''{"type":"FeatureCollection","features":['',
             Stringify \<lparr>geometry = \<lparr>gtype = ''Point'',
                                     coordinates = [nearest_double True 1221 10,
                                                    nearest_double False 75 2]\<rparr>,
                        point_properties = [(''NAME'', ''Foo'')]\<rparr>,
             Text '']}''],
          ended := True\<rparr>)\<close>
    by (simp add: respondWithGeojson_def fresh_def write_point_def record_to_point_def
        omit_def parse_defs)
next
  show "nearest_double True 1221 10 = Finite (- 4296011832046387 / 35184372088832)"
    by (simp add: double_defs)
next
  show "nearest_double False 75 2 = Finite (75 / 2)"
    by (simp add: double_defs)
qed (simp_all add: record_to_point_def)

theorem conversion_sink_witness:
  "\<exists>st1. respondWithGeojson csv_decoded Done (fresh ''/download/us/ca/x'' (Some ''geojson''))
            = Done st1
     \<and> points_written (written st1)
         = [\<lparr>geometry = \<lparr>gtype = ''Point'',
                          coordinates = [Finite (- 4296011832046387 / 35184372088832),
                                         Finite (75 / 2)]\<rparr>,
             point_properties = [(''NAME'', ''Foo'')]\<rparr>]"
  using conversion_sink [of "fresh ''/download/us/ca/x'' (Some ''geojson'')" csv_decoded Done]
  by (simp add: fresh_def csv_decoded_def record_to_point_def omit_def parse_defs)

text \<open>
  C9, as the code has it. A record whose \<open>LON\<close> or \<open>LAT\<close> column \<open>parseFloat\<close> reads
  as \<open>NaN\<close> is converted like any other: the stream runs to its end, the response is
  completed with status 200, one point is written per record, and the point of that
  record is among them. The point handed to \<open>JSON.stringify\<close> has \<open>NaN\<close> as a
  coordinate; what \<open>JSON.stringify\<close> prints for it has \<open>null\<close> there.
\<close>

theorem unparseable_coordinates_pass_through:
  assumes "\<not> headersSent st" "parse_error entry = None" "r \<in> set (records entry)"
    and "parseFloat (show_string (map_of r ''LON'')) = NaN
         \<or> parseFloat (show_string (map_of r ''LAT'')) = NaN"
  shows "\<exists>st1. respondWithGeojson entry next st = next st1
           \<and> ended st1 \<and> statusCode_sent st1 = 200
           \<and> record_to_point r \<in> set (points_written (written st1))
           \<and> length (points_written (written st1))
               = length (points_written (written st)) + length (records entry)
           \<and> NaN \<in> set (coordinates (geometry (record_to_point r)))
           \<and> (\<exists>cs. stringify_point (record_to_point r)
                  = JObject
                      [(''geometry'',
                        JObject [(''type'', JString ''Point''), (''coordinates'', JArray cs)]),
                       (''properties'',
                        JObject (map (\<lambda>kv. (fst kv, JString (snd kv)))
                                   (omit r [''LON'', ''LAT''])))]
                \<and> JNull \<in> set cs \<and> length cs = 2)"
proof -
  from respondWithGeojson_ends [OF assms(1,2), of "next"] obtain st1 where
    s: "respondWithGeojson entry next st = next st1"
      "points_written (written st1)
         = points_written (written st) @ map record_to_point (records entry)"
      "ended st1" "statusCode_sent st1 = 200"
    by blast
  have "record_to_point r \<in> set (points_written (written st1))"
    using s(2) assms(3) by simp
  moreover have "NaN \<in> set (coordinates (geometry (record_to_point r)))"
    using assms(4) by (auto simp: record_to_point_def)
  moreover have "\<exists>cs. stringify_point (record_to_point r)
                  = JObject
                      [(''geometry'',
                        JObject [(''type'', JString ''Point''), (''coordinates'', JArray cs)]),
                       (''properties'',
                        JObject (map (\<lambda>kv. (fst kv, JString (snd kv)))
                                   (omit r [''LON'', ''LAT''])))]
                \<and> JNull \<in> set cs \<and> length cs = 2"
    using assms(4) by (auto simp: stringify_point_def record_to_point_def)
  ultimately show ?thesis
    using s by auto
qed

theorem unparseable_coordinates_pass_through_witness:
  "\<exists>st1. respondWithGeojson bad_lon Done (fresh ''/download/us/ca/x'' (Some ''geojson''))
            = Done st1
     \<and> ended st1 \<and> statusCode_sent st1 = 200
     \<and> points_written (written st1)
         = [\<lparr>geometry = \<lparr>gtype = ''Point'', coordinates = [NaN, Finite (75 / 2)]\<rparr>,
             point_properties = [(''NAME'', ''Foo'')]\<rparr>]"
proof -
  have n: "parseFloat (show_string
             (map_of [(''LON'', ''west''), (''LAT'', ''37.5''), (''NAME'', ''Foo'')] ''LON''))
           = NaN"
    by (simp add: parse_defs)
  from unparseable_coordinates_pass_through
    [of "fresh ''/download/us/ca/x'' (Some ''geojson'')" bad_lon
        "[(''LON'', ''west''), (''LAT'', ''37.5''), (''NAME'', ''Foo'')]" Done]
    n
  obtain st1 where
    "respondWithGeojson bad_lon Done (fresh ''/download/us/ca/x'' (Some ''geojson'')) = Done st1"
    "ended st1" "statusCode_sent st1 = 200"
    by (auto simp: fresh_def bad_lon_def)
  moreover from this(1) have "points_written (written st1)
         = [\<lparr>geometry = \<lparr>gtype = ''Point'', coordinates = [NaN, Finite (75 / 2)]\<rparr>,
             point_properties = [(''NAME'', ''Foo'')]\<rparr>]"
    by (auto simp: respondWithGeojson_def fresh_def bad_lon_def write_point_def
        record_to_point_def omit_def parse_defs)
  ultimately show ?thesis by blast
qed

text \<open>
  C9 as stated fails. For the record with \<open>LON\<close> \<open>west\<close> the response is completed,
  and what is written for its point is \<open>JSON.stringify\<close> of a point whose first
  coordinate is \<open>NaN\<close>: in the text that the caller receives the coordinate is \<open>null\<close>.
\<close>

theorem nan_is_written_as_null:
  \<open>respondWithGeojson bad_lon Done (fresh ''/download/us/ca/x'' (Some ''geojson''))
     = Done ((fresh ''/download/us/ca/x'' (Some ''geojson''))
         \<lparr>statusCode_sent := 200, contentType := Some ''application/json'',
          contentDisposition := Some ''attachment; filename=data.geojson'',
          headersSent := True,
          written :=
            [Text ''{"type":"FeatureCollection","features":['',
             Stringify \<lparr>geometry = \<lparr>gtype = ''Point'',
                                     coordinates = [NaN, Finite (75 / 2)]\<rparr>,
                        point_properties = [(''NAME'', ''Foo'')]\<rparr>,
             Text '']}''],
          ended := True\<rparr>)
   \<and> stringify_point
        \<lparr>geometry = \<lparr>gtype = ''Point'', coordinates = [NaN, Finite (75 / 2)]\<rparr>,
         point_properties = [(''NAME'', ''Foo'')]\<rparr>
     = JObject
         [(''geometry'',
           JObject [(''type'', JString ''Point''),
                    (''coordinates'', JArray [JNull, JNumber (75 / 2)])]),
          (''properties'', JObject [(''NAME'', JString ''Foo'')])]\<close>
  by (simp add: respondWithGeojson_def fresh_def bad_lon_def write_point_def
      record_to_point_def omit_def stringify_point_def parse_defs)

section \<open>Temporary files\<close>

text \<open>
  How the listeners of \<open>getData\<close> fall out on the archives of the small outside world.
  A download in the default format, where the archive is at its end before the first
  byte of the CSV file goes out: \<open>cleanupTemp\<close> runs with the headers not yet sent and
  removes the temporary file. An archive whose CSV file is its last entry: the \<open>end\<close>
  listener runs before the read stream opens, answers 500 as if there were no CSV file,
  and the output handler then raises on the headers already sent.
\<close>

lemma csv_download_removes_temp_file:
  "download_route demo_dl_world (fresh ''/download/us/ca/x'' None)
     = Done ((fresh ''/download/us/ca/x'' None)
         \<lparr>format := Some ''csv'', outputHandler := Some RespondWithCsv,
          locals_source := Some ''us/ca/x'', datafile := Some ''http://data/us-ca.zip'',
          statusCode_sent := 200, contentType := Some ''text/csv'',
          contentDisposition := Some ''attachment; filename=data.csv'', headersSent := True,
          written := [Bytes csv_text],
          ended := True, temp_files := []\<rparr>)"
  by (simp add: dl_defs)

lemma csv_as_last_entry_is_not_found:
  "download_route demo_dl_world (fresh ''/download/us/last'' None)
     = Crashed ''ERR_HTTP_HEADERS_SENT''
        ((fresh ''/download/us/last'' None)
         \<lparr>format := Some ''csv'', outputHandler := Some RespondWithCsv,
          locals_source := Some ''us/last'', datafile := Some ''http://data/last.zip'',
          statusCode_sent := 200, contentType := Some ''application/json'', headersSent := True,
          written := [ErrorObject 500 ''http://data/last.zip does not contain .csv file''],
          ended := True, temp_files := [''/tmp/d-1.zip'']\<rparr>)"
  by (simp add: dl_defs)

text \<open>
  C5 on three requests. The archive of the first is not a zip file: the route answers
  400 and never reaches \<open>cleanupTemp\<close>. The archive of the second has no CSV file: the
  route answers 500 and then calls \<open>cleanupTemp\<close>, which does nothing because the
  headers have been sent. The third asks for GeoJSON and is served: the header of the
  collection is written as soon as the read stream opens, so \<open>cleanupTemp\<close> finds the
  headers sent each time it is called and does nothing. In all three the temporary file
  is still there when the response is complete.
\<close>

theorem temp_files_left_behind:
  \<open>download_route demo_dl_world (fresh ''/download/us/bad'' None)
     = Done ((fresh ''/download/us/bad'' None)
         \<lparr>format := Some ''csv'', outputHandler := Some RespondWithCsv,
          locals_source := Some ''us/bad'', datafile := Some ''http://data/bad.zip'',
          statusCode_sent := 400, contentType := Some ''text/plain'', headersSent := True,
          written := [Text (''Error retrieving file undefined: ''
                        @ ''end of central directory record signature not found'')],
          ended := True, temp_files := [''/tmp/d-1.zip'']\<rparr>)
   \<and> download_route demo_dl_world (fresh ''/download/us/dup'' None)
     = Done ((fresh ''/download/us/dup'' None)
         \<lparr>format := Some ''csv'', outputHandler := Some RespondWithCsv,
          locals_source := Some ''us/dup'', datafile := Some ''http://data/empty.zip'',
          statusCode_sent := 500, contentType := Some ''application/json'', headersSent := True,
          written := [ErrorObject 500 ''http://data/empty.zip does not contain .csv file''],
          ended := True, temp_files := [''/tmp/d-1.zip'']\<rparr>)
   \<and> download_route demo_dl_world (fresh ''/download/us/ca/x'' (Some ''geojson''))
     = Done ((fresh ''/download/us/ca/x'' (Some ''geojson''))
         \<lparr>outputHandler := Some RespondWithGeojson,
          locals_source := Some ''us/ca/x'', datafile := Some ''http://data/us-ca.zip'',
          statusCode_sent := 200, contentType := Some ''application/json'',
          contentDisposition := Some ''attachment; filename=data.geojson'',
          headersSent := True,
          written :=
            [Text ''{"type":"FeatureCollection","features":['',
             Stringify (record_to_point
                          [(''LON'', ''-122.1''), (''LAT'', ''37.5''), (''NAME'', ''Foo'')]),
             Text '']}''],
          ended := True, temp_files := [''/tmp/d-1.zip'']\<rparr>)\<close>
  by (simp add: dl_defs)

end
